theory Spec2Isabelle
  imports Main "HOL-Library.Word"
begin

section \<open>EEFILE: a record store over a byte-addressable EEPROM\<close>

text \<open>
  A shallow embedding of \<^verbatim>\<open>src/eefile.h\<close> and \<^verbatim>\<open>src/eefile.cpp\<close>.

  \<^item> \<^verbatim>\<open>uint8_t\<close> and \<^verbatim>\<open>uint16_t\<close> are \<open>8 word\<close> and \<open>16 word\<close>; an assignment
    to a \<^verbatim>\<open>uint16_t\<close> truncates, which is the wrap-around of word arithmetic.
  \<^item> \<^verbatim>\<open>int\<close> is taken to be wider than 16 bits (STM32, ESP32, PY32F003), so the sum of
    two promoted \<^verbatim>\<open>uint16_t\<close> values, as in \<^verbatim>\<open>nextAddr + actualSize\<close> and
    \<^verbatim>\<open>dataAddr + i\<close>, does not wrap: it is the sum of the two \<open>unat\<close> values.
  \<^item> The table \<^verbatim>\<open>files[EEFILE_MAX_FILES]\<close> together with \<^verbatim>\<open>fileCount\<close> is the list
    of the first \<^verbatim>\<open>fileCount\<close> entries; \<^verbatim>\<open>fileCount\<close> is its length.
  \<^item> A caller's buffer behind a \<^verbatim>\<open>uint8_t*\<close> is a function from the index to the byte.
  \<^item> Every operation returns the new state next to its result, so that "fails and
    leaves the state unchanged" is a theorem and not a property of the result type.
  \<^item> \<^verbatim>\<open>FILE_DEBUG\<close> output is not modelled, except that a \<^verbatim>\<open>return false\<close> carries
    the cause its message names.
\<close>

type_synonym u8 = "8 word"
type_synonym u16 = "16 word"
type_synonym buffer = "nat \<Rightarrow> u8"

subsection \<open>Configuration\<close>

text \<open>The constants of \<^verbatim>\<open>eefile.h\<close>: ten records, two sectors of 256 bytes.\<close>

definition EEFILE_MAX_FILES :: nat where "EEFILE_MAX_FILES = 10"
definition EEFILE_SECTOR_SIZE :: nat where "EEFILE_SECTOR_SIZE = 256"
definition EEFILE_NUM_SECTORS :: nat where "EEFILE_NUM_SECTORS = 2"
definition EEFILE_TOTAL_SIZE :: nat where
  "EEFILE_TOTAL_SIZE = EEFILE_SECTOR_SIZE * EEFILE_NUM_SECTORS"

subsection \<open>The device\<close>

text \<open>
  Modelled from the spec: the device primitive \<^verbatim>\<open>EEPROM.read(addr)\<close> /
  \<^verbatim>\<open>EEPROM.write(addr, value)\<close> of the Arduino EEPROM library, which is not part of
  the repository. The spec gives the device the addresses 0 to
  \<^verbatim>\<open>totalRegionSize - 1\<close> and nothing else: inside them a read returns the byte last
  written. An address from \<^verbatim>\<open>totalRegionSize\<close> on has no cell: a write there stores
  nothing, and a read there returns the byte \<open>absent\<close> of the device, whatever was
  written. \<open>journal\<close> is the history of the \<^verbatim>\<open>write\<close> calls, oldest first, with
  the calls outside the device among them; it is there to state the order in which an
  operation writes.
\<close>

record EEPROMClass =
  cells :: "nat \<Rightarrow> u8"
  absent :: u8
  journal :: "(nat \<times> u8) list"

definition EEPROM_read :: "EEPROMClass \<Rightarrow> nat \<Rightarrow> u8" where
  "EEPROM_read dev a = (if a < EEFILE_TOTAL_SIZE then cells dev a else absent dev)"

definition EEPROM_write :: "EEPROMClass \<Rightarrow> nat \<Rightarrow> u8 \<Rightarrow> EEPROMClass" where
  "EEPROM_write dev a v =
     (if a < EEFILE_TOTAL_SIZE
      then dev\<lparr>cells := (cells dev)(a := v), journal := journal dev @ [(a, v)]\<rparr>
      else dev\<lparr>journal := journal dev @ [(a, v)]\<rparr>)"

subsection \<open>Data model\<close>

text \<open>
  The identifiers are a caller-defined enumeration; this is the one of the shipped
  example (the header itself ships \<^verbatim>\<open>IIC_START\<close>, \<^verbatim>\<open>KAL_MAN\<close>, \<^verbatim>\<open>END\<close>).
\<close>

datatype EEFileType = IIC_START | KAL_MAN | USER_SETTINGS | END

record FileMetadata =
  type :: EEFileType
  maxSize :: u16
  startAddr :: u16
  endAddr :: u16
  dataLen :: u16
  enabled :: bool
  modified :: bool

text \<open>The store, with the global \<^verbatim>\<open>::EEPROM\<close> object carried in the state.\<close>

record EEFILE =
  files :: "FileMetadata list"
  is_enabled :: bool
  EEPROM :: EEPROMClass

definition fileCount :: "EEFILE \<Rightarrow> nat" where
  "fileCount s = length (files s)"

text \<open>The causes of a \<^verbatim>\<open>return false\<close>, one for each error message of the source.\<close>

datatype error =
    MaxFilesReached
  | AlreadyRegistered
  | NotEnoughSpace
  | EEPROMDisabled
  | TypeNotFound
  | TypeDisabled
  | DataTooLong
  | DataInvalid

datatype result = OK | ERROR error

subsection \<open>Lookup and address allocation\<close>

text \<open>\<^verbatim>\<open>findFileIndex\<close>: the first index whose entry has the type; \<open>None\<close> is -1.\<close>

fun findFrom :: "FileMetadata list \<Rightarrow> EEFileType \<Rightarrow> nat \<Rightarrow> nat option" where
  "findFrom [] t i = None"
| "findFrom (f # fs) t i = (if type f = t then Some i else findFrom fs t (Suc i))"

definition findFileIndex :: "EEFILE \<Rightarrow> EEFileType \<Rightarrow> nat option" where
  "findFileIndex s t = findFrom (files s) t 0"

text \<open>\<^verbatim>\<open>calculateNextAddr\<close>: the \<^verbatim>\<open>uint16_t\<close> return value truncates \<^verbatim>\<open>lastEnd + 1\<close>.\<close>

definition calculateNextAddr :: "EEFILE \<Rightarrow> u16" where
  "calculateNextAddr s =
     (if fileCount s = 0 then 0
      else let lastEnd = endAddr (files s ! (fileCount s - 1)) in lastEnd + 1)"

subsection \<open>Construction and the store-wide switch\<close>

definition EEFILE_new :: "EEPROMClass \<Rightarrow> EEFILE" where
  "EEFILE_new dev = \<lparr>files = [], is_enabled = False, EEPROM = dev\<rparr>"

text \<open>
  \<^verbatim>\<open>begin()\<close> also initialises the device, which changes no byte of it; the name
  \<open>begin\<close> is taken in Isabelle.
\<close>

definition begin_store :: "EEFILE \<Rightarrow> EEFILE" where
  "begin_store s = s\<lparr>is_enabled := True\<rparr>"

definition enable :: "EEFILE \<Rightarrow> EEFILE" where
  "enable s = s\<lparr>is_enabled := True\<rparr>"

definition disable :: "EEFILE \<Rightarrow> EEFILE" where
  "disable s = s\<lparr>is_enabled := False\<rparr>"

definition isEnabled :: "EEFILE \<Rightarrow> bool" where
  "isEnabled s = is_enabled s"

subsection \<open>Registration\<close>

text \<open>
  \<^verbatim>\<open>uint16_t actualSize = maxSize + 1\<close> truncates to 16 bits. The comparison adds the two
  promoted values without wrap-around. \<^verbatim>\<open>endAddr\<close> is the \<^verbatim>\<open>int\<close> value
  \<^verbatim>\<open>nextAddr + actualSize - 1\<close> truncated to 16 bits.
\<close>

definition registerAuto :: "EEFILE \<Rightarrow> EEFileType \<Rightarrow> u16 \<Rightarrow> result \<times> EEFILE" where
  "registerAuto s t maxSz =
     (if fileCount s \<ge> EEFILE_MAX_FILES then (ERROR MaxFilesReached, s)
      else if findFileIndex s t \<noteq> None then (ERROR AlreadyRegistered, s)
      else
        let nextAddr = calculateNextAddr s;
            actualSize = maxSz + 1
        in if unat nextAddr + unat actualSize > EEFILE_TOTAL_SIZE
           then (ERROR NotEnoughSpace, s)
           else (OK, s\<lparr>files := files s @
                   [\<lparr>type = t, maxSize = maxSz, startAddr = nextAddr,
                     endAddr = word_of_int (uint nextAddr + uint actualSize - 1),
                     dataLen = 0, enabled = True, modified = False\<rparr>]\<rparr>))"

subsection \<open>Write\<close>

text \<open>
  Both loops of \<^verbatim>\<open>write\<close> have the shape
  \<^verbatim>\<open>for (uint16_t i = lo; i < hi; i++) EEPROM.write(dataAddr + i, src[i])\<close>,
  the first with the caller's data from 0 to \<^verbatim>\<open>length\<close>, the second with the
  constant \<^verbatim>\<open>0xFF\<close> from \<^verbatim>\<open>length\<close> to \<^verbatim>\<open>maxSize\<close>. The counter is a
  \<^verbatim>\<open>uint16_t\<close>; it stays below \<open>hi\<close>, so \<^verbatim>\<open>i++\<close> never wraps.
\<close>

function write_loop :: "u16 \<Rightarrow> buffer \<Rightarrow> u16 \<Rightarrow> u16 \<Rightarrow> EEPROMClass \<Rightarrow> EEPROMClass" where
  "write_loop dataAddr src hi i dev =
     (if i < hi
      then write_loop dataAddr src hi (i + 1)
             (EEPROM_write dev (unat dataAddr + unat i) (src (unat i)))
      else dev)"
  by pat_completeness auto
termination
proof (relation "measure (\<lambda>(dataAddr, src, hi, i, dev). unat hi - unat i)")
  show "wf (measure (\<lambda>(dataAddr, src, hi, i, dev). unat hi - unat i))"
    by simp
next
  fix dataAddr :: u16 and src :: buffer and hi i :: u16 and dev :: EEPROMClass
  assume "i < hi"
  then have lt: "unat i < unat hi"
    by (simp add: word_less_nat_alt)
  have "unat hi < 2 ^ 16"
    using unsigned_less [of hi, where ?'a = nat] by simp
  with lt have "unat (i + 1) = unat i + 1"
    by (simp add: unat_word_ariths)
  with lt show "((dataAddr, src, hi, i + 1, EEPROM_write dev (unat dataAddr + unat i) (src (unat i))),
                 (dataAddr, src, hi, i, dev))
                \<in> measure (\<lambda>(dataAddr, src, hi, i, dev). unat hi - unat i)"
    by simp
qed

definition "write" :: "EEFILE \<Rightarrow> EEFileType \<Rightarrow> buffer \<Rightarrow> u16 \<Rightarrow> result \<times> EEFILE" where
  "write s t data len =
     (if \<not> is_enabled s then (ERROR EEPROMDisabled, s)
      else case findFileIndex s t of
        None \<Rightarrow> (ERROR TypeNotFound, s)
      | Some idx \<Rightarrow>
          let f = files s ! idx in
          if \<not> enabled f then (ERROR TypeDisabled, s)
          else if len > maxSize f then (ERROR DataTooLong, s)
          else
            let address = startAddr f;
                dataAddr = address + 1;
                dev1 = EEPROM_write (EEPROM s) (unat address) 0x01;
                dev2 = write_loop dataAddr data len 0 dev1;
                dev3 = write_loop dataAddr (\<lambda>i. 0xFF) (maxSize f) len dev2
            in (OK, s\<lparr>EEPROM := dev3,
                      files := (files s)[idx := f\<lparr>dataLen := len, modified := True\<rparr>]\<rparr>))"

subsection \<open>Read\<close>

text \<open>\<^verbatim>\<open>for (uint16_t i = 0; i < readLen; i++) data[i] = EEPROM.read(dataAddr + i)\<close>\<close>

function read_loop :: "EEPROMClass \<Rightarrow> u16 \<Rightarrow> u16 \<Rightarrow> u16 \<Rightarrow> buffer \<Rightarrow> buffer" where
  "read_loop dev dataAddr readLen i data =
     (if i < readLen
      then read_loop dev dataAddr readLen (i + 1)
             (data(unat i := EEPROM_read dev (unat dataAddr + unat i)))
      else data)"
  by pat_completeness auto
termination
proof (relation "measure (\<lambda>(dev, dataAddr, readLen, i, data). unat readLen - unat i)")
  show "wf (measure (\<lambda>(dev, dataAddr, readLen, i, data). unat readLen - unat i))"
    by simp
next
  fix dev :: EEPROMClass and dataAddr readLen i :: u16 and data :: buffer
  assume "i < readLen"
  then have lt: "unat i < unat readLen"
    by (simp add: word_less_nat_alt)
  have "unat readLen < 2 ^ 16"
    using unsigned_less [of readLen, where ?'a = nat] by simp
  with lt have "unat (i + 1) = unat i + 1"
    by (simp add: unat_word_ariths)
  with lt show "((dev, dataAddr, readLen, i + 1,
                  data(unat i := EEPROM_read dev (unat dataAddr + unat i))),
                 (dev, dataAddr, readLen, i, data))
                \<in> measure (\<lambda>(dev, dataAddr, readLen, i, data). unat readLen - unat i)"
    by simp
qed

text \<open>\<^verbatim>\<open>read\<close> changes neither the table nor the device; it returns the caller's buffer.\<close>

definition read :: "EEFILE \<Rightarrow> EEFileType \<Rightarrow> buffer \<Rightarrow> u16 \<Rightarrow> result \<times> buffer" where
  "read s t data len =
     (if \<not> is_enabled s then (ERROR EEPROMDisabled, data)
      else case findFileIndex s t of
        None \<Rightarrow> (ERROR TypeNotFound, data)
      | Some idx \<Rightarrow>
          let f = files s ! idx in
          if \<not> enabled f then (ERROR TypeDisabled, data)
          else
            let address = startAddr f;
                dataAddr = address + 1;
                validMarker = EEPROM_read (EEPROM s) (unat address)
            in if validMarker \<noteq> 0x01 then (ERROR DataInvalid, data)
               else
                 let readLen = (if len < dataLen f then len else dataLen f)
                 in (OK, read_loop (EEPROM s) dataAddr readLen 0 data))"

subsection \<open>Erase, flags and validity\<close>

definition erase :: "EEFILE \<Rightarrow> EEFileType \<Rightarrow> result \<times> EEFILE" where
  "erase s t =
     (if \<not> is_enabled s then (ERROR EEPROMDisabled, s)
      else case findFileIndex s t of
        None \<Rightarrow> (ERROR TypeNotFound, s)
      | Some idx \<Rightarrow>
          let f = files s ! idx;
              address = startAddr f
          in (OK, s\<lparr>EEPROM := EEPROM_write (EEPROM s) (unat address) 0x00,
                    files := (files s)[idx := f\<lparr>dataLen := 0, modified := False\<rparr>]\<rparr>))"

definition setFileEnabled :: "EEFILE \<Rightarrow> EEFileType \<Rightarrow> bool \<Rightarrow> EEFILE" where
  "setFileEnabled s t en =
     (case findFileIndex s t of
        None \<Rightarrow> s
      | Some idx \<Rightarrow> s\<lparr>files := (files s)[idx := (files s ! idx)\<lparr>enabled := en\<rparr>]\<rparr>)"

definition isFileEnabled :: "EEFILE \<Rightarrow> EEFileType \<Rightarrow> bool" where
  "isFileEnabled s t =
     (case findFileIndex s t of None \<Rightarrow> False | Some idx \<Rightarrow> enabled (files s ! idx))"

definition getFileDataLen :: "EEFILE \<Rightarrow> EEFileType \<Rightarrow> u16" where
  "getFileDataLen s t =
     (case findFileIndex s t of None \<Rightarrow> 0 | Some idx \<Rightarrow> dataLen (files s ! idx))"

definition isFileModified :: "EEFILE \<Rightarrow> EEFileType \<Rightarrow> bool" where
  "isFileModified s t =
     (case findFileIndex s t of None \<Rightarrow> False | Some idx \<Rightarrow> modified (files s ! idx))"

definition clearModifiedFlag :: "EEFILE \<Rightarrow> EEFileType \<Rightarrow> EEFILE" where
  "clearModifiedFlag s t =
     (case findFileIndex s t of
        None \<Rightarrow> s
      | Some idx \<Rightarrow> s\<lparr>files := (files s)[idx := (files s ! idx)\<lparr>modified := False\<rparr>]\<rparr>)"

definition isFileValid :: "EEFILE \<Rightarrow> EEFileType \<Rightarrow> bool" where
  "isFileValid s t =
     (case findFileIndex s t of
        None \<Rightarrow> False
      | Some idx \<Rightarrow>
          let address = startAddr (files s ! idx);
              validMarker = EEPROM_read (EEPROM s) (unat address)
          in validMarker = 0x01)"

definition setFileValid :: "EEFILE \<Rightarrow> EEFileType \<Rightarrow> bool \<Rightarrow> EEFILE" where
  "setFileValid s t valid =
     (case findFileIndex s t of
        None \<Rightarrow> s
      | Some idx \<Rightarrow>
          let address = startAddr (files s ! idx);
              marker = (if valid then 0x01 else 0x00)
          in s\<lparr>EEPROM := EEPROM_write (EEPROM s) (unat address) marker\<rparr>)"

definition getFileAddr :: "EEFILE \<Rightarrow> EEFileType \<Rightarrow> u16" where
  "getFileAddr s t =
     (case findFileIndex s t of None \<Rightarrow> 0 | Some idx \<Rightarrow> startAddr (files s ! idx))"

subsection \<open>Callers\<close>

text \<open>
  The states the store can be in are those a caller reaches from the constructor by a
  sequence of calls of the public operations. \<^verbatim>\<open>read\<close> and the queries change
  nothing and are left out.
\<close>

datatype call =
    Begin
  | Enable
  | Disable
  | RegisterAuto EEFileType u16
  | Write EEFileType buffer u16
  | Erase EEFileType
  | SetFileEnabled EEFileType bool
  | ClearModifiedFlag EEFileType
  | SetFileValid EEFileType bool

fun perform :: "EEFILE \<Rightarrow> call \<Rightarrow> EEFILE" where
  "perform s Begin = begin_store s"
| "perform s Enable = enable s"
| "perform s Disable = disable s"
| "perform s (RegisterAuto t maxSz) = snd (registerAuto s t maxSz)"
| "perform s (Write t data len) = snd (write s t data len)"
| "perform s (Erase t) = snd (erase s t)"
| "perform s (SetFileEnabled t en) = setFileEnabled s t en"
| "perform s (ClearModifiedFlag t) = clearModifiedFlag s t"
| "perform s (SetFileValid t valid) = setFileValid s t valid"

definition run :: "EEPROMClass \<Rightarrow> call list \<Rightarrow> EEFILE" where
  "run dev cs = foldl perform (EEFILE_new dev) cs"

text \<open>
  What every reachable table satisfies: a record starts at or below the end of the
  region, and its \<^verbatim>\<open>endAddr\<close> is its \<^verbatim>\<open>startAddr\<close> plus its \<^verbatim>\<open>maxSize\<close> in
  16-bit arithmetic.
\<close>

definition region_inv :: "FileMetadata \<Rightarrow> bool" where
  "region_inv f \<longleftrightarrow>
     unat (startAddr f) \<le> EEFILE_TOTAL_SIZE \<and> endAddr f = startAddr f + maxSize f"

definition table_inv :: "EEFILE \<Rightarrow> bool" where
  "table_inv s \<longleftrightarrow> list_all region_inv (files s)"

text \<open>
  The layout the registrations are meant to produce, from address \<open>a\<close> on: each
  record starts where the one before it ended plus one, ends \<^verbatim>\<open>maxSize\<close> bytes after
  its start, and ends inside the region.
\<close>

fun layout :: "nat \<Rightarrow> FileMetadata list \<Rightarrow> bool" where
  "layout a [] \<longleftrightarrow> True"
| "layout a (f # fs) \<longleftrightarrow>
     unat (startAddr f) = a \<and> unat (endAddr f) = a + unat (maxSize f)
     \<and> unat (endAddr f) < EEFILE_TOTAL_SIZE \<and> layout (unat (endAddr f) + 1) fs"

text \<open>The calls other than a registration of the largest \<^verbatim>\<open>uint16_t\<close> size.\<close>

fun modest :: "call \<Rightarrow> bool" where
  "modest (RegisterAuto t maxSz) \<longleftrightarrow> maxSz \<noteq> 0xFFFF"
| "modest c \<longleftrightarrow> True"

subsection \<open>Scenarios\<close>

text \<open>
  Two device contents, and the calls of the shipped example: \<^verbatim>\<open>EE_INIT()\<close> is
  \<^verbatim>\<open>begin\<close> followed by \<^verbatim>\<open>enable\<close>, then three registrations, then the
  write of the one-byte I2C address \<^verbatim>\<open>0x42\<close>.
\<close>

definition blank :: EEPROMClass where
  "blank = \<lparr>cells = (\<lambda>a. 0xFF), absent = 0xFF, journal = []\<rparr>"

definition zeroed :: EEPROMClass where
  "zeroed = \<lparr>cells = (\<lambda>a. 0x00), absent = 0x00, journal = []\<rparr>"

definition i2c_addr :: buffer where
  "i2c_addr i = 0x42"

definition setup_calls :: "call list" where
  "setup_calls =
     [Begin, Enable, RegisterAuto IIC_START 1, RegisterAuto KAL_MAN 4, RegisterAuto USER_SETTINGS 16]"

definition written_calls :: "call list" where
  "written_calls = setup_calls @ [Write IIC_START i2c_addr 1]"

text \<open>The same, followed by \<^verbatim>\<open>disable()\<close> of the whole store.\<close>

definition stopped_calls :: "call list" where
  "stopped_calls = written_calls @ [Disable]"

text \<open>The same, followed by \<^verbatim>\<open>EE_DISABLE(IIC_START)\<close>.\<close>

definition disabled_calls :: "call list" where
  "disabled_calls = setup_calls @ [Write IIC_START i2c_addr 1, SetFileEnabled IIC_START False]"

text \<open>A registration of the largest \<^verbatim>\<open>uint16_t\<close> size behind a one-byte record.\<close>

definition wrapped_calls :: "call list" where
  "wrapped_calls = [Begin, RegisterAuto IIC_START 1, RegisterAuto KAL_MAN 0xFFFF]"

text \<open>The same behind a record that fills the region: the next address is 512.\<close>

definition beyond_calls :: "call list" where
  "beyond_calls = [Begin, RegisterAuto IIC_START 511, RegisterAuto KAL_MAN 0xFFFF]"

section \<open>Properties of the model\<close>

declare write_loop.simps [simp del]
declare read_loop.simps [simp del]

subsection \<open>16-bit arithmetic\<close>

lemma unat_u16_bound: "unat (w :: u16) < 65536"
  using unsigned_less [of w, where ?'a = nat] by simp

lemma unat_u16_succ: "unat ((a::u16) + 1) = (unat a + 1) mod 65536"
  by (simp add: unat_word_ariths)

lemma unat_max_u16: "unat (- 1 :: u16) = 65535"
  by (simp add: unsigned_minus_1_eq_mask mask_eq_exp_minus_1)

lemma unat_succ_size: "maxSz \<noteq> 0xFFFF \<Longrightarrow> unat (maxSz + 1 :: u16) = unat maxSz + 1"
proof -
  assume "maxSz \<noteq> 0xFFFF"
  moreover have "unat (0xFFFF :: u16) = 65535"
    by simp
  ultimately have "unat maxSz \<noteq> 65535"
    by (simp add: word_unat_eq_iff)
  with unat_u16_bound [of maxSz] show ?thesis
    by (simp add: unat_u16_succ)
qed

lemma u16_succ: "(i::u16) < hi \<Longrightarrow> unat (i + 1) = Suc (unat i)"
proof -
  assume "i < hi"
  then have "unat i < unat hi" by (simp add: word_less_nat_alt)
  moreover have "unat hi < 2 ^ 16" using unsigned_less [of hi, where ?'a = nat] by simp
  ultimately show ?thesis by (simp add: unat_word_ariths)
qed

text \<open>
  The data address plus an offset below the largest payload size is never the marker
  address, also when \<^verbatim>\<open>address + 1\<close> wraps.
\<close>

lemma marker_apart: "k < 65535 \<Longrightarrow> unat ((a::u16) + 1) + k \<noteq> unat a"
proof (cases "unat a = 65535")
  case True
  then have "unat (a + 1) = 0" by (simp add: unat_u16_succ)
  moreover assume "k < 65535"
  ultimately show ?thesis using True by simp
next
  case False
  with unat_u16_bound [of a] have "unat a + 1 < 65536" by simp
  then have "unat (a + 1) = unat a + 1" by (simp add: unat_u16_succ)
  then show ?thesis by simp
qed

lemma endAddr_trunc:
  "(word_of_int (uint (a::u16) + uint (m + 1 :: u16) - 1) :: u16) = a + m"
  by simp

subsection \<open>The device\<close>

lemma total_size: "EEFILE_TOTAL_SIZE = 512"
  by (simp add: EEFILE_TOTAL_SIZE_def EEFILE_SECTOR_SIZE_def EEFILE_NUM_SECTORS_def)

lemma EEPROM_write_sel:
  "cells (EEPROM_write dev a v) b =
     (if b = a \<and> a < EEFILE_TOTAL_SIZE then v else cells dev b)"
  "absent (EEPROM_write dev a v) = absent dev"
  "journal (EEPROM_write dev a v) = journal dev @ [(a, v)]"
  by (simp_all add: EEPROM_write_def)

text \<open>Inside the device a read returns the byte last written; outside it, never.\<close>

lemma EEPROM_read_write:
  "EEPROM_read (EEPROM_write dev a v) b =
     (if b = a \<and> a < EEFILE_TOTAL_SIZE then v else EEPROM_read dev b)"
  by (simp add: EEPROM_read_def EEPROM_write_sel)

subsection \<open>The loops\<close>

lemma write_loop_cells:
  "cells (write_loop dataAddr src hi i dev) a =
     (if a < EEFILE_TOTAL_SIZE \<and> unat dataAddr + unat i \<le> a \<and> a < unat dataAddr + unat hi
      then src (a - unat dataAddr) else cells dev a)"
proof (induction dataAddr src hi i dev rule: write_loop.induct)
  case (1 dataAddr src hi i dev)
  show ?case
  proof (cases "i < hi")
    case True
    then have lt: "unat i < unat hi" by (simp add: word_less_nat_alt)
    from True have suc: "unat (i + 1) = Suc (unat i)" by (rule u16_succ)
    show ?thesis
      using "1.IH" [OF True] lt
      by (subst write_loop.simps) (auto simp: True suc EEPROM_write_sel)
  next
    case False
    then have "\<not> unat i < unat hi" by (simp add: word_less_nat_alt)
    then show ?thesis
      by (subst write_loop.simps) (auto simp: False)
  qed
qed

lemma write_loop_absent:
  "absent (write_loop dataAddr src hi i dev) = absent dev"
proof (induction dataAddr src hi i dev rule: write_loop.induct)
  case (1 dataAddr src hi i dev)
  show ?case
  proof (cases "i < hi")
    case True
    with "1.IH" [OF True] show ?thesis
      by (subst write_loop.simps) (simp add: EEPROM_write_sel)
  next
    case False
    then show ?thesis
      by (subst write_loop.simps) simp
  qed
qed

lemma write_loop_journal:
  "journal (write_loop dataAddr src hi i dev) =
     journal dev @ map (\<lambda>k. (unat dataAddr + k, src k)) [unat i..<unat hi]"
proof (induction dataAddr src hi i dev rule: write_loop.induct)
  case (1 dataAddr src hi i dev)
  show ?case
  proof (cases "i < hi")
    case True
    then have lt: "unat i < unat hi" by (simp add: word_less_nat_alt)
    from True have suc: "unat (i + 1) = Suc (unat i)" by (rule u16_succ)
    show ?thesis
      using "1.IH" [OF True] lt
      by (subst write_loop.simps) (simp add: True suc EEPROM_write_sel upt_conv_Cons)
  next
    case False
    then have "\<not> unat i < unat hi" by (simp add: word_less_nat_alt)
    then show ?thesis
      by (subst write_loop.simps) (auto simp: False)
  qed
qed

lemma read_loop_at:
  "read_loop dev dataAddr readLen i data k =
     (if unat i \<le> k \<and> k < unat readLen then EEPROM_read dev (unat dataAddr + k) else data k)"
proof (induction dev dataAddr readLen i data rule: read_loop.induct)
  case (1 dev dataAddr readLen i data)
  show ?case
  proof (cases "i < readLen")
    case True
    then have lt: "unat i < unat readLen" by (simp add: word_less_nat_alt)
    from True have suc: "unat (i + 1) = Suc (unat i)" by (rule u16_succ)
    let ?data' = "data(unat i := EEPROM_read dev (unat dataAddr + unat i))"
    have "read_loop dev dataAddr readLen i data k =
          read_loop dev dataAddr readLen (i + 1) ?data' k"
      by (subst read_loop.simps) (simp add: True)
    also have "\<dots> = (if Suc (unat i) \<le> k \<and> k < unat readLen
                       then EEPROM_read dev (unat dataAddr + k) else ?data' k)"
      using "1.IH" [OF True] by (simp only: suc)
    also have "\<dots> = (if unat i \<le> k \<and> k < unat readLen
                       then EEPROM_read dev (unat dataAddr + k) else data k)"
      using lt by auto
    finally show ?thesis .
  next
    case False
    then have "\<not> unat i < unat readLen" by (simp add: word_less_nat_alt)
    then show ?thesis
      by (subst read_loop.simps) (auto simp: False)
  qed
qed

subsection \<open>Lookup\<close>

lemma findFrom_Some:
  "findFrom fs t i = Some k \<Longrightarrow> i \<le> k \<and> k - i < length fs \<and> type (fs ! (k - i)) = t"
proof (induction fs arbitrary: i)
  case Nil
  then show ?case by simp
next
  case (Cons f fs)
  show ?case
  proof (cases "type f = t")
    case True
    with Cons.prems show ?thesis by simp
  next
    case False
    with Cons.prems have "findFrom fs t (Suc i) = Some k" by simp
    from Cons.IH [OF this]
    have "Suc i \<le> k" and "k - Suc i < length fs" and "type (fs ! (k - Suc i)) = t"
      by simp_all
    moreover from \<open>Suc i \<le> k\<close> have "k - i = Suc (k - Suc i)" by simp
    ultimately show ?thesis by simp
  qed
qed

lemma findFileIndex_Some:
  "findFileIndex s t = Some idx \<Longrightarrow> idx < length (files s) \<and> type (files s ! idx) = t"
  using findFrom_Some [of "files s" t 0 idx] by (simp add: findFileIndex_def)

lemma findFrom_types:
  "map type fs = map type gs \<Longrightarrow> findFrom fs t i = findFrom gs t i"
proof (induction fs arbitrary: gs i)
  case Nil
  then show ?case by simp
next
  case (Cons f fs)
  then obtain g gs' where gs: "gs = g # gs'" and "type f = type g" and "map type fs = map type gs'"
    by (cases gs) auto
  with Cons.IH [of gs' "Suc i"] show ?case by simp
qed

lemma findFrom_update:
  "idx < length fs \<Longrightarrow> type g = type (fs ! idx) \<Longrightarrow> findFrom (fs[idx := g]) t i = findFrom fs t i"
  by (rule findFrom_types) (simp add: map_update list_update_same_conv)

lemma findFrom_None:
  "findFrom fs t i = None \<longleftrightarrow> t \<notin> type ` set fs"
  by (induction fs arbitrary: i) auto

lemma findFrom_append:
  "findFrom (fs @ gs) t i =
     (case findFrom fs t i of Some k \<Rightarrow> Some k | None \<Rightarrow> findFrom gs t (i + length fs))"
  by (induction fs arbitrary: i) (auto split: option.splits)

lemma findFileIndex_update:
  assumes "findFileIndex s t = Some idx" and "type g = type (files s ! idx)"
  shows "findFileIndex (s\<lparr>files := (files s)[idx := g]\<rparr>) t' = findFileIndex s t'"
  using findFileIndex_Some [OF assms(1)] assms(2)
  by (simp add: findFileIndex_def findFrom_update)

subsection \<open>What a registration does\<close>

text \<open>
  For every size but 65535 the three checks are the ones the comments of the source
  describe, in their order, and a registration that fails changes nothing.
\<close>

lemma registerAuto_checks:
  assumes "maxSz \<noteq> 0xFFFF"
  shows "registerAuto s t maxSz =
     (if EEFILE_MAX_FILES \<le> fileCount s then (ERROR MaxFilesReached, s)
      else if findFileIndex s t \<noteq> None then (ERROR AlreadyRegistered, s)
      else if EEFILE_TOTAL_SIZE < unat (calculateNextAddr s) + unat maxSz + 1
        then (ERROR NotEnoughSpace, s)
      else (OK, s\<lparr>files := files s @
              [\<lparr>type = t, maxSize = maxSz, startAddr = calculateNextAddr s,
                endAddr = calculateNextAddr s + maxSz,
                dataLen = 0, enabled = True, modified = False\<rparr>]\<rparr>))"
  using assms by (simp add: registerAuto_def Let_def unat_succ_size endAddr_trunc)

lemma registerAuto_failed_unchanged:
  "fst (registerAuto s t maxSz) \<noteq> OK \<Longrightarrow> snd (registerAuto s t maxSz) = s"
  by (simp add: registerAuto_def Let_def split: if_splits)

subsection \<open>What a write does\<close>

lemma write_OK:
  assumes "is_enabled s" and "findFileIndex s t = Some idx"
    and "enabled (files s ! idx)" and "len \<le> maxSize (files s ! idx)"
  shows "write s t data len =
    (OK, s\<lparr>EEPROM :=
              write_loop (startAddr (files s ! idx) + 1) (\<lambda>i. 0xFF) (maxSize (files s ! idx)) len
                (write_loop (startAddr (files s ! idx) + 1) data len 0
                  (EEPROM_write (EEPROM s) (unat (startAddr (files s ! idx))) 0x01)),
            files := (files s)[idx := (files s ! idx)\<lparr>dataLen := len, modified := True\<rparr>]\<rparr>)"
  using assms by (simp add: write_def Let_def not_less)

lemma write_OK_iff:
  "fst (write s t data len) = OK \<longleftrightarrow>
     is_enabled s \<and> (\<exists>idx. findFileIndex s t = Some idx \<and> enabled (files s ! idx)
        \<and> len \<le> maxSize (files s ! idx))"
  by (auto simp: write_def Let_def not_less split: option.splits)

lemma write_failed_unchanged:
  "fst (write s t data len) \<noteq> OK \<Longrightarrow> snd (write s t data len) = s"
  by (auto simp: write_def Let_def split: option.splits if_splits)

lemma write_cells:
  assumes ok: "is_enabled s" "findFileIndex s t = Some idx"
    "enabled (files s ! idx)" "len \<le> maxSize (files s ! idx)"
  defines "f \<equiv> files s ! idx"
  defines "dataAddr \<equiv> unat (startAddr f + 1)"
  shows "cells (EEPROM (snd (write s t data len))) a =
     (if \<not> a < EEFILE_TOTAL_SIZE then cells (EEPROM s) a
      else if a = unat (startAddr f) then 0x01
      else if dataAddr \<le> a \<and> a < dataAddr + unat len then data (a - dataAddr)
      else if dataAddr + unat len \<le> a \<and> a < dataAddr + unat (maxSize f) then 0xFF
      else cells (EEPROM s) a)"
proof -
  have len: "unat len \<le> unat (maxSize f)"
    using ok(4) by (simp add: f_def word_le_nat_alt)
  have apart: "dataAddr + k \<noteq> unat (startAddr f)" if "k < unat (maxSize f)" for k
    using that unat_u16_bound [of "maxSize f"] marker_apart [of k "startAddr f"]
    by (simp add: dataAddr_def)
  have marker: "\<not> (dataAddr \<le> unat (startAddr f) \<and> unat (startAddr f) < dataAddr + unat (maxSize f))"
  proof
    assume h: "dataAddr \<le> unat (startAddr f) \<and> unat (startAddr f) < dataAddr + unat (maxSize f)"
    then have "unat (startAddr f) - dataAddr < unat (maxSize f)" by arith
    from apart [OF this] h show False by simp
  qed
  show ?thesis
    unfolding write_OK [OF ok] snd_conv
    using len marker
    by (auto simp: write_loop_cells EEPROM_write_sel f_def [symmetric] dataAddr_def [symmetric])
qed

lemma write_absent:
  "absent (EEPROM (snd (write s t data len))) = absent (EEPROM s)"
  by (simp add: write_def Let_def write_loop_absent EEPROM_write_sel split: option.splits)

text \<open>What the device returns after a successful write.\<close>

lemma write_read_back:
  assumes ok: "is_enabled s" "findFileIndex s t = Some idx"
    "enabled (files s ! idx)" "len \<le> maxSize (files s ! idx)"
  defines "f \<equiv> files s ! idx"
  defines "dataAddr \<equiv> unat (startAddr f + 1)"
  shows "EEPROM_read (EEPROM (snd (write s t data len))) a =
     (if \<not> a < EEFILE_TOTAL_SIZE then absent (EEPROM s)
      else if a = unat (startAddr f) then 0x01
      else if dataAddr \<le> a \<and> a < dataAddr + unat len then data (a - dataAddr)
      else if dataAddr + unat len \<le> a \<and> a < dataAddr + unat (maxSize f) then 0xFF
      else EEPROM_read (EEPROM s) a)"
  unfolding EEPROM_read_def write_absent f_def dataAddr_def
  by (simp add: write_cells [OF ok])

lemma write_journal:
  assumes ok: "is_enabled s" "findFileIndex s t = Some idx"
    "enabled (files s ! idx)" "len \<le> maxSize (files s ! idx)"
  defines "f \<equiv> files s ! idx"
  defines "dataAddr \<equiv> unat (startAddr f + 1)"
  shows "journal (EEPROM (snd (write s t data len))) =
     journal (EEPROM s) @ (unat (startAddr f), 0x01)
       # map (\<lambda>k. (dataAddr + k, data k)) [0..<unat len]
       @ map (\<lambda>k. (dataAddr + k, 0xFF)) [unat len..<unat (maxSize f)]"
  unfolding write_OK [OF ok] snd_conv
  by (simp add: write_loop_journal EEPROM_write_sel f_def dataAddr_def)

lemma write_files:
  assumes ok: "is_enabled s" "findFileIndex s t = Some idx"
    "enabled (files s ! idx)" "len \<le> maxSize (files s ! idx)"
  shows "files (snd (write s t data len)) =
           (files s)[idx := (files s ! idx)\<lparr>dataLen := len, modified := True\<rparr>]"
    and "is_enabled (snd (write s t data len))"
  unfolding write_OK [OF ok] snd_conv using ok(1) by simp_all

lemma findFileIndex_write:
  "findFileIndex (snd (write s t data len)) t' = findFileIndex s t'"
  by (auto simp: write_def Let_def findFileIndex_def findFrom_update
      dest!: findFrom_Some split: option.splits)

subsection \<open>The invariant of the table\<close>

lemma list_all_update:
  "list_all P xs \<Longrightarrow> P y \<Longrightarrow> list_all P (xs[i := y])"
  by (induction xs arbitrary: i) (auto split: nat.splits)

lemma list_all_nth: "list_all P xs \<Longrightarrow> i < length xs \<Longrightarrow> P (xs ! i)"
  by (simp add: list_all_length)

lemma table_inv_update:
  assumes "table_inv s" and "findFileIndex s t = Some idx"
    and "startAddr g = startAddr (files s ! idx)" and "endAddr g = endAddr (files s ! idx)"
    and "maxSize g = maxSize (files s ! idx)"
  shows "list_all region_inv ((files s)[idx := g])"
proof -
  have "region_inv (files s ! idx)"
    using assms(1) findFileIndex_Some [OF assms(2)] by (simp add: table_inv_def list_all_nth)
  then have "region_inv g"
    using assms(3-5) by (simp add: region_inv_def)
  with assms(1) show ?thesis
    by (simp add: table_inv_def list_all_update)
qed

lemma table_inv_registerAuto:
  assumes "table_inv s"
  shows "table_inv (snd (registerAuto s t maxSz))"
  using assms
  by (simp add: registerAuto_def Let_def table_inv_def region_inv_def endAddr_trunc)

lemma table_inv_write:
  assumes "table_inv s"
  shows "table_inv (snd (write s t data len))"
proof (cases "fst (write s t data len) = OK")
  case True
  then obtain idx where ok: "is_enabled s" "findFileIndex s t = Some idx"
    "enabled (files s ! idx)" "len \<le> maxSize (files s ! idx)"
    by (auto simp: write_OK_iff)
  show ?thesis
    using table_inv_update [OF assms ok(2), of "(files s ! idx)\<lparr>dataLen := len, modified := True\<rparr>"]
    by (simp add: table_inv_def write_files(1) [OF ok])
next
  case False
  then show ?thesis using assms by (simp add: write_failed_unchanged)
qed

lemma table_inv_erase:
  assumes "table_inv s"
  shows "table_inv (snd (erase s t))"
proof (cases "findFileIndex s t")
  case None
  with assms show ?thesis by (simp add: erase_def)
next
  case (Some idx)
  show ?thesis
    using assms table_inv_update [OF assms Some, of "(files s ! idx)\<lparr>dataLen := 0, modified := False\<rparr>"]
    by (simp add: erase_def Some Let_def table_inv_def)
qed

lemma table_inv_setFileEnabled:
  assumes "table_inv s"
  shows "table_inv (setFileEnabled s t en)"
proof (cases "findFileIndex s t")
  case None
  with assms show ?thesis by (simp add: setFileEnabled_def)
next
  case (Some idx)
  show ?thesis
    using table_inv_update [OF assms Some, of "(files s ! idx)\<lparr>enabled := en\<rparr>"]
    by (simp add: setFileEnabled_def Some table_inv_def)
qed

lemma table_inv_clearModifiedFlag:
  assumes "table_inv s"
  shows "table_inv (clearModifiedFlag s t)"
proof (cases "findFileIndex s t")
  case None
  with assms show ?thesis by (simp add: clearModifiedFlag_def)
next
  case (Some idx)
  show ?thesis
    using table_inv_update [OF assms Some, of "(files s ! idx)\<lparr>modified := False\<rparr>"]
    by (simp add: clearModifiedFlag_def Some table_inv_def)
qed

lemma table_inv_setFileValid:
  "table_inv s \<Longrightarrow> table_inv (setFileValid s t valid)"
  by (simp add: setFileValid_def table_inv_def Let_def split: option.splits)

lemma table_inv_perform: "table_inv s \<Longrightarrow> table_inv (perform s c)"
proof (cases c)
  case Begin
  assume "table_inv s" then show ?thesis by (simp add: Begin begin_store_def table_inv_def)
next
  case Enable
  assume "table_inv s" then show ?thesis by (simp add: Enable enable_def table_inv_def)
next
  case Disable
  assume "table_inv s" then show ?thesis by (simp add: Disable disable_def table_inv_def)
next
  case (RegisterAuto t m)
  assume "table_inv s" then show ?thesis by (simp add: RegisterAuto table_inv_registerAuto)
next
  case (Write t d l)
  assume "table_inv s" then show ?thesis by (simp add: Write table_inv_write)
next
  case (Erase t)
  assume "table_inv s" then show ?thesis by (simp add: Erase table_inv_erase)
next
  case (SetFileEnabled t e)
  assume "table_inv s" then show ?thesis by (simp add: SetFileEnabled table_inv_setFileEnabled)
next
  case (ClearModifiedFlag t)
  assume "table_inv s" then show ?thesis by (simp add: ClearModifiedFlag table_inv_clearModifiedFlag)
next
  case (SetFileValid t v)
  assume "table_inv s" then show ?thesis by (simp add: SetFileValid table_inv_setFileValid)
qed

lemma table_inv_run: "table_inv (run dev cs)"
proof (induction cs rule: rev_induct)
  case Nil
  show ?case by (simp add: run_def EEFILE_new_def table_inv_def)
next
  case (snoc c cs)
  then show ?case by (simp add: run_def table_inv_perform)
qed

text \<open>
  In a reachable table \<^verbatim>\<open>startAddr + 1\<close> does not wrap, and \<^verbatim>\<open>endAddr\<close> is at
  most \<^verbatim>\<open>startAddr + maxSize\<close>.
\<close>

lemma run_region:
  assumes "findFileIndex (run dev cs) t = Some idx"
  shows "unat (startAddr (files (run dev cs) ! idx) + 1) = unat (startAddr (files (run dev cs) ! idx)) + 1"
    and "unat (endAddr (files (run dev cs) ! idx))
          \<le> unat (startAddr (files (run dev cs) ! idx)) + unat (maxSize (files (run dev cs) ! idx))"
proof -
  let ?f = "files (run dev cs) ! idx"
  have inv: "region_inv ?f"
    using table_inv_run [of dev cs] findFileIndex_Some [OF assms]
    by (simp add: table_inv_def list_all_nth)
  then have "unat (startAddr ?f) \<le> 512"
    by (simp add: region_inv_def EEFILE_TOTAL_SIZE_def EEFILE_SECTOR_SIZE_def EEFILE_NUM_SECTORS_def)
  then show "unat (startAddr ?f + 1) = unat (startAddr ?f) + 1"
    by (simp add: unat_u16_succ)
  from inv have "endAddr ?f = startAddr ?f + maxSize ?f"
    by (simp add: region_inv_def)
  then show "unat (endAddr ?f) \<le> unat (startAddr ?f) + unat (maxSize ?f)"
    by (simp add: unat_word_ariths)
qed

subsection \<open>The layout of modest registrations\<close>

lemma layout_append:
  "layout a (fs @ [g]) \<longleftrightarrow>
     layout a fs
     \<and> unat (startAddr g) = (if fs = [] then a else unat (endAddr (last fs)) + 1)
     \<and> unat (endAddr g) = unat (startAddr g) + unat (maxSize g)
     \<and> unat (endAddr g) < EEFILE_TOTAL_SIZE"
  by (induction fs arbitrary: a) auto

lemma layout_last:
  "layout a fs \<Longrightarrow> fs \<noteq> [] \<Longrightarrow> unat (endAddr (last fs)) < EEFILE_TOTAL_SIZE"
  by (induction fs arbitrary: a) auto

lemma layout_addresses:
  "map (\<lambda>f. (startAddr f, endAddr f, maxSize f)) fs
     = map (\<lambda>f. (startAddr f, endAddr f, maxSize f)) gs
   \<Longrightarrow> layout a fs = layout a gs"
proof (induction fs arbitrary: gs a)
  case Nil
  then show ?case by simp
next
  case (Cons f fs)
  then obtain g gs' where gs: "gs = g # gs'"
    and "startAddr f = startAddr g" "endAddr f = endAddr g" "maxSize f = maxSize g"
    and "map (\<lambda>f. (startAddr f, endAddr f, maxSize f)) fs
           = map (\<lambda>f. (startAddr f, endAddr f, maxSize f)) gs'"
    by (cases gs) auto
  with Cons.IH [of gs'] show ?case by simp
qed

lemma layout_update:
  assumes "idx < length fs" and "startAddr g = startAddr (fs ! idx)"
    and "endAddr g = endAddr (fs ! idx)" and "maxSize g = maxSize (fs ! idx)"
  shows "layout a (fs[idx := g]) = layout a fs"
  using assms by (intro layout_addresses) (simp add: map_update list_update_same_conv)

lemma layout_lower:
  "layout a fs \<Longrightarrow> j < length fs \<Longrightarrow> a \<le> unat (startAddr (fs ! j))"
proof (induction fs arbitrary: a j)
  case Nil
  then show ?case by simp
next
  case (Cons f fs)
  show ?case
  proof (cases j)
    case 0
    with Cons.prems show ?thesis by simp
  next
    case (Suc k)
    with Cons.prems have "unat (endAddr f) + 1 \<le> unat (startAddr (fs ! k))"
      by (intro Cons.IH) auto
    with Cons.prems Suc show ?thesis by simp
  qed
qed

lemma layout_disjoint:
  "layout a fs \<Longrightarrow> i < j \<Longrightarrow> j < length fs
   \<Longrightarrow> unat (endAddr (fs ! i)) < unat (startAddr (fs ! j))"
proof (induction fs arbitrary: a i j)
  case Nil
  then show ?case by simp
next
  case (Cons f fs)
  from Cons.prems obtain k where j: "j = Suc k" by (cases j) auto
  from Cons.prems have rest: "layout (unat (endAddr f) + 1) fs" by auto
  show ?case
  proof (cases i)
    case 0
    from layout_lower [OF rest, of k] Cons.prems j
    have "unat (endAddr f) + 1 \<le> unat (startAddr (fs ! k))" by simp
    with 0 j show ?thesis by simp
  next
    case (Suc i')
    with Cons.prems j Cons.IH [OF rest, of i' k] show ?thesis by simp
  qed
qed

lemma layout_next:
  "layout a fs \<Longrightarrow> Suc i < length fs
   \<Longrightarrow> unat (startAddr (fs ! Suc i)) = unat (endAddr (fs ! i)) + 1"
proof (induction fs arbitrary: a i)
  case Nil
  then show ?case by simp
next
  case (Cons f fs)
  show ?case
  proof (cases i)
    case 0
    with Cons.prems show ?thesis by (cases fs) auto
  next
    case (Suc i')
    with Cons.prems Cons.IH [of "unat (endAddr f) + 1" i'] show ?thesis by auto
  qed
qed

lemma layout_region:
  "layout a fs \<Longrightarrow> i < length fs
   \<Longrightarrow> unat (endAddr (fs ! i)) = unat (startAddr (fs ! i)) + unat (maxSize (fs ! i))
     \<and> unat (endAddr (fs ! i)) < EEFILE_TOTAL_SIZE"
proof (induction fs arbitrary: a i)
  case Nil
  then show ?case by simp
next
  case (Cons f fs)
  show ?case
  proof (cases i)
    case 0
    with Cons.prems show ?thesis by simp
  next
    case (Suc i')
    with Cons.prems Cons.IH [of "unat (endAddr f) + 1" i'] show ?thesis by auto
  qed
qed

lemma calculateNextAddr_layout:
  assumes "layout 0 (files s)"
  shows "unat (calculateNextAddr s)
           = (if files s = [] then 0 else unat (endAddr (last (files s))) + 1)"
proof (cases "files s = []")
  case True
  then show ?thesis by (simp add: calculateNextAddr_def fileCount_def)
next
  case False
  from layout_last [OF assms False] have "unat (endAddr (last (files s))) < 512"
    by (simp add: EEFILE_TOTAL_SIZE_def EEFILE_SECTOR_SIZE_def EEFILE_NUM_SECTORS_def)
  then have "unat (endAddr (last (files s)) + 1) = unat (endAddr (last (files s))) + 1"
    by (simp add: unat_u16_succ)
  with False show ?thesis
    by (simp add: calculateNextAddr_def fileCount_def Let_def last_conv_nth)
qed

lemma layout_registerAuto:
  assumes "layout 0 (files s)" and "maxSz \<noteq> 0xFFFF"
  shows "layout 0 (files (snd (registerAuto s t maxSz)))"
proof (cases "fst (registerAuto s t maxSz) = OK")
  case False
  with assms(1) show ?thesis by (simp add: registerAuto_failed_unchanged)
next
  case True
  let ?next = "calculateNextAddr s"
  from True have fits: "unat ?next + unat maxSz + 1 \<le> EEFILE_TOTAL_SIZE"
    and files': "files (snd (registerAuto s t maxSz)) = files s @
              [\<lparr>type = t, maxSize = maxSz, startAddr = ?next, endAddr = ?next + maxSz,
                dataLen = 0, enabled = True, modified = False\<rparr>]"
    unfolding registerAuto_checks [OF assms(2)] by (simp_all split: if_splits)
  from fits have "unat ?next + unat maxSz < 65536"
    by (simp add: EEFILE_TOTAL_SIZE_def EEFILE_SECTOR_SIZE_def EEFILE_NUM_SECTORS_def)
  then have sum: "unat (?next + maxSz) = unat ?next + unat maxSz"
    by (simp add: unat_word_ariths)
  show ?thesis
    unfolding files' layout_append
    using assms(1) fits sum calculateNextAddr_layout [OF assms(1)] by simp
qed

lemma layout_write:
  assumes "layout 0 (files s)"
  shows "layout 0 (files (snd (write s t data len)))"
proof (cases "fst (write s t data len) = OK")
  case True
  then obtain idx where ok: "is_enabled s" "findFileIndex s t = Some idx"
    "enabled (files s ! idx)" "len \<le> maxSize (files s ! idx)"
    by (auto simp: write_OK_iff)
  from findFileIndex_Some [OF ok(2)] assms show ?thesis
    by (simp add: write_files(1) [OF ok] layout_update)
next
  case False
  then show ?thesis using assms by (simp add: write_failed_unchanged)
qed

lemma layout_erase:
  assumes "layout 0 (files s)"
  shows "layout 0 (files (snd (erase s t)))"
proof (cases "findFileIndex s t")
  case None
  with assms show ?thesis by (simp add: erase_def)
next
  case (Some idx)
  from findFileIndex_Some [OF Some] assms show ?thesis
    by (simp add: erase_def Some Let_def layout_update)
qed

lemma layout_setFileEnabled:
  assumes "layout 0 (files s)"
  shows "layout 0 (files (setFileEnabled s t en))"
proof (cases "findFileIndex s t")
  case None
  with assms show ?thesis by (simp add: setFileEnabled_def)
next
  case (Some idx)
  from findFileIndex_Some [OF Some] assms show ?thesis
    by (simp add: setFileEnabled_def Some layout_update)
qed

lemma layout_clearModifiedFlag:
  assumes "layout 0 (files s)"
  shows "layout 0 (files (clearModifiedFlag s t))"
proof (cases "findFileIndex s t")
  case None
  with assms show ?thesis by (simp add: clearModifiedFlag_def)
next
  case (Some idx)
  from findFileIndex_Some [OF Some] assms show ?thesis
    by (simp add: clearModifiedFlag_def Some layout_update)
qed

lemma layout_perform:
  assumes "layout 0 (files s)" and "modest c"
  shows "layout 0 (files (perform s c))"
  using assms
  by (cases c)
     (simp_all add: begin_store_def enable_def disable_def layout_registerAuto layout_write
        layout_erase layout_setFileEnabled layout_clearModifiedFlag setFileValid_def Let_def
        split: option.splits)

lemma layout_run: "list_all modest cs \<Longrightarrow> layout 0 (files (run dev cs))"
proof (induction cs rule: rev_induct)
  case Nil
  show ?case by (simp add: run_def EEFILE_new_def)
next
  case (snoc c cs)
  then show ?case by (simp add: run_def layout_perform)
qed

lemma write_frame:
  assumes l: "layout 0 (files s)"
    and idx: "findFileIndex s t = Some idx"
    and ok: "fst (write s t data len) = OK"
  shows "a < unat (startAddr (files s ! idx)) \<or> unat (endAddr (files s ! idx)) < a
           \<Longrightarrow> cells (EEPROM (snd (write s t data len))) a = cells (EEPROM s) a"
    and "files (snd (write s t data len))
           = (files s)[idx := (files s ! idx)\<lparr>dataLen := len, modified := True\<rparr>]"
    and "j \<noteq> idx \<Longrightarrow> files (snd (write s t data len)) ! j = files s ! j"
    and "is_enabled (snd (write s t data len)) = is_enabled s"
proof -
  define f where "f = files s ! idx"
  from ok idx have cond: "is_enabled s" "findFileIndex s t = Some idx"
    "enabled (files s ! idx)" "len \<le> maxSize (files s ! idx)"
    by (auto simp: write_OK_iff)
  have lt: "idx < length (files s)"
    using findFileIndex_Some [OF idx] by simp
  from layout_region [OF l lt]
  have e: "unat (endAddr f) = unat (startAddr f) + unat (maxSize f)"
    and "unat (endAddr f) < 512"
    by (simp_all add: f_def EEFILE_TOTAL_SIZE_def EEFILE_SECTOR_SIZE_def EEFILE_NUM_SECTORS_def)
  then have da: "unat (startAddr f + 1) = unat (startAddr f) + 1"
    by (simp add: unat_u16_succ)
  have len: "unat len \<le> unat (maxSize f)"
    using cond(4) by (simp add: f_def word_le_nat_alt)
  show "a < unat (startAddr (files s ! idx)) \<or> unat (endAddr (files s ! idx)) < a
           \<Longrightarrow> cells (EEPROM (snd (write s t data len))) a = cells (EEPROM s) a"
    using e len unfolding write_cells [OF cond] f_def [symmetric] da by auto
  show files': "files (snd (write s t data len))
           = (files s)[idx := (files s ! idx)\<lparr>dataLen := len, modified := True\<rparr>]"
    by (rule write_files(1) [OF cond])
  show "j \<noteq> idx \<Longrightarrow> files (snd (write s t data len)) ! j = files s ! j"
    unfolding files' by simp
  show "is_enabled (snd (write s t data len)) = is_enabled s"
    using write_files(2) [OF cond] cond(1) by simp
qed

subsection \<open>A read after a write\<close>

lemma read_after_write:
  assumes ok: "is_enabled s" "findFileIndex s t = Some idx"
    "enabled (files s ! idx)" "len \<le> maxSize (files s ! idx)"
    and start: "unat (startAddr (files s ! idx)) < EEFILE_TOTAL_SIZE"
  shows "fst (read (snd (write s t data len)) t buf len) = OK"
    and "snd (read (snd (write s t data len)) t buf len) i =
          (if i < unat len
           then EEPROM_read (EEPROM (snd (write s t data len)))
                  (unat (startAddr (files s ! idx) + 1) + i)
           else buf i)"
proof -
  define f where "f = files s ! idx"
  define s' where "s' = snd (write s t data len)"
  have idx: "idx < length (files s)"
    using findFileIndex_Some [OF ok(2)] by simp
  have find': "findFileIndex s' t = Some idx"
    by (simp add: s'_def findFileIndex_write ok(2))
  have f': "files s' ! idx = f\<lparr>dataLen := len, modified := True\<rparr>"
    using idx by (simp add: s'_def write_files(1) [OF ok] f_def)
  have en': "is_enabled s'"
    by (simp add: s'_def write_files(2) [OF ok])
  have marker: "EEPROM_read (EEPROM s') (unat (startAddr f)) = 0x01"
    unfolding s'_def write_read_back [OF ok] using start by (simp add: f_def)
  have r: "read s' t buf len = (OK, read_loop (EEPROM s') (startAddr f + 1) len 0 buf)"
    using en' find' f' ok(3) marker
    by (simp add: read_def Let_def f_def)
  show "fst (read (snd (write s t data len)) t buf len) = OK"
    using r by (simp add: s'_def)
  show "snd (read (snd (write s t data len)) t buf len) i =
          (if i < unat len
           then EEPROM_read (EEPROM (snd (write s t data len)))
                  (unat (startAddr (files s ! idx) + 1) + i)
           else buf i)"
    using r by (simp add: s'_def [symmetric] f_def [symmetric] read_loop_at)
qed

subsection \<open>The scenarios, evaluated\<close>

lemmas store_defs =
  run_def EEFILE_new_def begin_store_def enable_def disable_def registerAuto_def
  fileCount_def findFileIndex_def calculateNextAddr_def
  EEFILE_MAX_FILES_def EEFILE_TOTAL_SIZE_def EEFILE_SECTOR_SIZE_def EEFILE_NUM_SECTORS_def
  Let_def

lemma blank_sel: "cells blank a = 0xFF" "absent blank = 0xFF" "journal blank = []"
  by (simp_all add: blank_def)

lemma zeroed_sel: "cells zeroed a = 0x00" "absent zeroed = 0x00" "journal zeroed = []"
  by (simp_all add: zeroed_def)

lemma setup_store:
  "run blank setup_calls =
     \<lparr>files =
        [\<lparr>type = IIC_START, maxSize = 1, startAddr = 0, endAddr = 1,
          dataLen = 0, enabled = True, modified = False\<rparr>,
         \<lparr>type = KAL_MAN, maxSize = 4, startAddr = 2, endAddr = 6,
          dataLen = 0, enabled = True, modified = False\<rparr>,
         \<lparr>type = USER_SETTINGS, maxSize = 16, startAddr = 7, endAddr = 23,
          dataLen = 0, enabled = True, modified = False\<rparr>],
      is_enabled = True, EEPROM = blank\<rparr>"
  by (simp add: setup_calls_def store_defs)

lemma written_store:
  "run blank written_calls =
     (\<lparr>files =
        [\<lparr>type = IIC_START, maxSize = 1, startAddr = 0, endAddr = 1,
          dataLen = 1, enabled = True, modified = True\<rparr>,
         \<lparr>type = KAL_MAN, maxSize = 4, startAddr = 2, endAddr = 6,
          dataLen = 0, enabled = True, modified = False\<rparr>,
         \<lparr>type = USER_SETTINGS, maxSize = 16, startAddr = 7, endAddr = 23,
          dataLen = 0, enabled = True, modified = False\<rparr>],
      is_enabled = True,
      EEPROM = \<lparr>cells = (\<lambda>a. 0xFF)(0 := 0x01, 1 := 0x42), absent = 0xFF,
                journal = [(0, 0x01), (1, 0x42)]\<rparr>\<rparr>)"
  (is "_ = ?store")
proof -
  have "run blank written_calls = snd (write (run blank setup_calls) IIC_START i2c_addr 1)"
    by (simp add: written_calls_def run_def)
  also have "\<dots> = ?store"
    unfolding setup_store
    by (simp add: write_def findFileIndex_def Let_def
        write_loop.simps EEPROM_write_def total_size blank_def i2c_addr_def)
  finally show ?thesis .
qed

lemma stopped_store: "run blank stopped_calls = (run blank written_calls)\<lparr>is_enabled := False\<rparr>"
  by (simp add: stopped_calls_def run_def disable_def)

lemma disabled_store:
  "run blank disabled_calls =
     (\<lparr>files =
        [\<lparr>type = IIC_START, maxSize = 1, startAddr = 0, endAddr = 1,
          dataLen = 1, enabled = False, modified = True\<rparr>,
         \<lparr>type = KAL_MAN, maxSize = 4, startAddr = 2, endAddr = 6,
          dataLen = 0, enabled = True, modified = False\<rparr>,
         \<lparr>type = USER_SETTINGS, maxSize = 16, startAddr = 7, endAddr = 23,
          dataLen = 0, enabled = True, modified = False\<rparr>],
      is_enabled = True,
      EEPROM = \<lparr>cells = (\<lambda>a. 0xFF)(0 := 0x01, 1 := 0x42), absent = 0xFF,
                journal = [(0, 0x01), (1, 0x42)]\<rparr>\<rparr>)"
  (is "_ = ?store")
proof -
  have "run blank disabled_calls =
        setFileEnabled (snd (write (run blank setup_calls) IIC_START i2c_addr 1)) IIC_START False"
    by (simp add: disabled_calls_def run_def)
  also have "\<dots> = ?store"
    unfolding setup_store
    by (simp add: write_def setFileEnabled_def findFileIndex_def Let_def
        write_loop.simps EEPROM_write_def total_size blank_def i2c_addr_def)
  finally show ?thesis .
qed

lemma wrapped_store:
  "run zeroed wrapped_calls =
     \<lparr>files =
        [\<lparr>type = IIC_START, maxSize = 1, startAddr = 0, endAddr = 1,
          dataLen = 0, enabled = True, modified = False\<rparr>,
         \<lparr>type = KAL_MAN, maxSize = 0xFFFF, startAddr = 2, endAddr = 1,
          dataLen = 0, enabled = True, modified = False\<rparr>],
      is_enabled = True, EEPROM = zeroed\<rparr>"
  by (simp add: wrapped_calls_def store_defs)

lemma beyond_store:
  "run blank beyond_calls =
     \<lparr>files =
        [\<lparr>type = IIC_START, maxSize = 511, startAddr = 0, endAddr = 511,
          dataLen = 0, enabled = True, modified = False\<rparr>,
         \<lparr>type = KAL_MAN, maxSize = 0xFFFF, startAddr = 512, endAddr = 511,
          dataLen = 0, enabled = True, modified = False\<rparr>],
      is_enabled = True, EEPROM = blank\<rparr>"
  by (simp add: beyond_calls_def store_defs)

section \<open>The claims\<close>

subsection \<open>C1: write, then read\<close>

text \<open>
  Claim C1 says that for every registered, enabled record, with the store enabled, and
  every payload of a length up to the record's \<^verbatim>\<open>maxSize\<close>, \<^verbatim>\<open>write\<close> succeeds
  and a \<^verbatim>\<open>read\<close> of the same length right after it succeeds and returns the
  payload. A record of size 65535 is admitted behind a one-byte record, at address 2.
  A write of 511 bytes to it succeeds and so does the read, but the payload bytes from
  index 509 on go to the addresses 512 and above, which the device of 512 bytes does
  not have: the read returns the payload at index 508 and another byte at index 509.
\<close>

theorem write_then_read_beyond_device:
  "is_enabled (run zeroed wrapped_calls)
   \<and> findFileIndex (run zeroed wrapped_calls) KAL_MAN = Some 1
   \<and> enabled (files (run zeroed wrapped_calls) ! 1)
   \<and> 511 \<le> maxSize (files (run zeroed wrapped_calls) ! 1)
   \<and> fst (write (run zeroed wrapped_calls) KAL_MAN i2c_addr 511) = OK
   \<and> fst (read (snd (write (run zeroed wrapped_calls) KAL_MAN i2c_addr 511)) KAL_MAN
            (cells blank) 511) = OK
   \<and> snd (read (snd (write (run zeroed wrapped_calls) KAL_MAN i2c_addr 511)) KAL_MAN
            (cells blank) 511) 508 = 0x42
   \<and> i2c_addr 509 = 0x42
   \<and> snd (read (snd (write (run zeroed wrapped_calls) KAL_MAN i2c_addr 511)) KAL_MAN
            (cells blank) 511) 509 = 0x00"
proof -
  have h1: "is_enabled (run zeroed wrapped_calls)"
    and h2: "findFileIndex (run zeroed wrapped_calls) KAL_MAN = Some 1"
    and h3: "enabled (files (run zeroed wrapped_calls) ! 1)"
    and h4: "511 \<le> maxSize (files (run zeroed wrapped_calls) ! 1)"
    and h5: "unat (startAddr (files (run zeroed wrapped_calls) ! 1)) < EEFILE_TOTAL_SIZE"
    by (simp_all add: wrapped_store findFileIndex_def total_size)
  have w: "fst (write (run zeroed wrapped_calls) KAL_MAN i2c_addr 511) = OK"
    using h1 h2 h3 h4 by (simp add: write_OK)
  note r = read_after_write [OF h1 h2 h3 h4 h5, of i2c_addr "cells blank"]
  have b508: "snd (read (snd (write (run zeroed wrapped_calls) KAL_MAN i2c_addr 511)) KAL_MAN
            (cells blank) 511) 508 = 0x42"
    unfolding r(2) write_read_back [OF h1 h2 h3 h4]
    by (simp add: wrapped_store total_size i2c_addr_def)
  have b509: "snd (read (snd (write (run zeroed wrapped_calls) KAL_MAN i2c_addr 511)) KAL_MAN
            (cells blank) 511) 509 = 0x00"
    unfolding r(2) write_read_back [OF h1 h2 h3 h4]
    by (simp add: wrapped_store total_size zeroed_sel)
  from h1 h2 h3 h4 w r(1) b508 b509 show ?thesis
    by (simp add: i2c_addr_def)
qed

text \<open>
  What does hold: the round trip of every record whose bytes lie inside the device,
  and so of every record when no registration asks for 65535 bytes.
\<close>

lemma round_trip_in_region:
  assumes "is_enabled s" and "findFileIndex s t = Some idx"
    and "enabled (files s ! idx)" and "len \<le> maxSize (files s ! idx)"
    and "unat (startAddr (files s ! idx)) + unat (maxSize (files s ! idx)) < EEFILE_TOTAL_SIZE"
  shows "fst (write s t data len) = OK
     \<and> fst (read (snd (write s t data len)) t buf len) = OK
     \<and> (\<forall>i < unat len. snd (read (snd (write s t data len)) t buf len) i = data i)"
proof -
  define f where "f = files s ! idx"
  have start: "unat (startAddr f) < EEFILE_TOTAL_SIZE"
    using assms(5) by (simp add: f_def)
  then have da: "unat (startAddr f + 1) = unat (startAddr f) + 1"
    by (simp add: unat_u16_succ total_size)
  have len: "unat len \<le> unat (maxSize f)"
    using assms(4) by (simp add: f_def word_le_nat_alt)
  have w: "fst (write s t data len) = OK"
    using assms(1-4) by (simp add: write_OK)
  note r = read_after_write [OF assms(1-4) start [unfolded f_def], of data buf]
  have "snd (read (snd (write s t data len)) t buf len) i = data i" if "i < unat len" for i
    unfolding r(2) write_read_back [OF assms(1-4)] f_def [symmetric] da
    using that len assms(5) by (simp add: f_def)
  with w r(1) show ?thesis by simp
qed

lemma modest_round_trip:
  assumes "list_all modest cs" and "is_enabled (run dev cs)"
    and "findFileIndex (run dev cs) t = Some idx"
    and "enabled (files (run dev cs) ! idx)" and "len \<le> maxSize (files (run dev cs) ! idx)"
  shows "fst (write (run dev cs) t data len) = OK
     \<and> fst (read (snd (write (run dev cs) t data len)) t buf len) = OK
     \<and> (\<forall>i < unat len. snd (read (snd (write (run dev cs) t data len)) t buf len) i = data i)"
proof -
  have "idx < length (files (run dev cs))"
    using findFileIndex_Some [OF assms(3)] by simp
  from layout_region [OF layout_run [OF assms(1)] this]
  have "unat (startAddr (files (run dev cs) ! idx)) + unat (maxSize (files (run dev cs) ! idx))
          < EEFILE_TOTAL_SIZE"
    by simp
  with assms(2-5) show ?thesis
    by (rule round_trip_in_region)
qed

subsection \<open>C2: a disabled record\<close>

text \<open>
  Claim C2 says that \<^verbatim>\<open>write\<close>, \<^verbatim>\<open>read\<close> and \<^verbatim>\<open>erase\<close> on a record whose
  \<^verbatim>\<open>enabled\<close> flag is false fail and leave the device bytes and the validity
  unchanged. \<^verbatim>\<open>erase\<close> does not test the flag: in the example, after
  \<^verbatim>\<open>EE_DISABLE(IIC_START)\<close>, it returns true, overwrites the marker \<^verbatim>\<open>0x01\<close> at
  address 0 with \<^verbatim>\<open>0x00\<close>, turns the record invalid and resets its data length.
\<close>

theorem erase_ignores_record_flag:
  "isFileValid (run blank disabled_calls) IIC_START
   \<and> \<not> isFileEnabled (run blank disabled_calls) IIC_START
   \<and> getFileDataLen (run blank disabled_calls) IIC_START = 1
   \<and> cells (EEPROM (run blank disabled_calls)) 0 = 0x01
   \<and> fst (erase (run blank disabled_calls) IIC_START) = OK
   \<and> cells (EEPROM (snd (erase (run blank disabled_calls) IIC_START))) 0 = 0x00
   \<and> \<not> isFileValid (snd (erase (run blank disabled_calls) IIC_START)) IIC_START
   \<and> getFileDataLen (snd (erase (run blank disabled_calls) IIC_START)) IIC_START = 0"
  by (simp add: disabled_store isFileValid_def isFileEnabled_def getFileDataLen_def erase_def
      findFileIndex_def EEPROM_read_def EEPROM_write_def total_size Let_def)

text \<open>What does hold: \<^verbatim>\<open>write\<close> and \<^verbatim>\<open>read\<close> refuse a disabled record and change
  nothing, and enabling the record again restores the state before it was disabled.\<close>

lemma disabled_record_write:
  "is_enabled s \<Longrightarrow> findFileIndex s t = Some idx \<Longrightarrow> \<not> enabled (files s ! idx)
   \<Longrightarrow> write s t data len = (ERROR TypeDisabled, s)"
  by (simp add: write_def Let_def)

lemma disabled_record_read:
  "is_enabled s \<Longrightarrow> findFileIndex s t = Some idx \<Longrightarrow> \<not> enabled (files s ! idx)
   \<Longrightarrow> read s t buf len = (ERROR TypeDisabled, buf)"
  by (simp add: read_def Let_def)

lemma reenable_restores:
  assumes "findFileIndex s t = Some idx" and "enabled (files s ! idx)"
  shows "setFileEnabled (setFileEnabled s t False) t True = s"
proof -
  have lt: "idx < length (files s)"
    using findFileIndex_Some [OF assms(1)] by simp
  have find': "findFileIndex (s\<lparr>files := (files s)[idx := (files s ! idx)\<lparr>enabled := False\<rparr>]\<rparr>) t
               = Some idx"
    using findFileIndex_update [OF assms(1), of "(files s ! idx)\<lparr>enabled := False\<rparr>" t] assms(1)
    by simp
  have "(files s ! idx)\<lparr>enabled := True\<rparr> = files s ! idx"
    using assms(2) by simp
  then show ?thesis
    using lt by (simp add: setFileEnabled_def assms(1) find' list_update_same_conv)
qed

subsection \<open>C3: the end address and the size of the region\<close>

text \<open>
  Claim C3 says that every admitted record has \<^verbatim>\<open>endAddr\<close> below the 512 bytes of
  the region, for every \<^verbatim>\<open>maxSize\<close> of the \<^verbatim>\<open>uint16_t\<close> range. For
  \<^verbatim>\<open>maxSize = 65535\<close> the 16-bit \<^verbatim>\<open>actualSize = maxSize + 1\<close> is 0, the space
  check passes, and the first record is admitted with \<^verbatim>\<open>endAddr = 65535\<close>.
\<close>

theorem registerAuto_endAddr_beyond_region:
  "fst (registerAuto (run blank [Begin]) IIC_START 0xFFFF) = OK
   \<and> startAddr (files (snd (registerAuto (run blank [Begin]) IIC_START 0xFFFF)) ! 0) = 0
   \<and> unat (endAddr (files (snd (registerAuto (run blank [Begin]) IIC_START 0xFFFF)) ! 0)) = 65535
   \<and> EEFILE_TOTAL_SIZE = 512"
  by (simp add: store_defs unat_max_u16)

text \<open>For every other size an admitted record ends inside the region.\<close>

lemma registerAuto_endAddr_bound:
  assumes "maxSz \<noteq> 0xFFFF" and "fst (registerAuto s t maxSz) = OK"
  shows "unat (endAddr (last (files (snd (registerAuto s t maxSz)))))
           = unat (calculateNextAddr s) + unat maxSz
     \<and> unat (endAddr (last (files (snd (registerAuto s t maxSz))))) < EEFILE_TOTAL_SIZE"
proof -
  let ?next = "calculateNextAddr s"
  from assms(2) have fits: "unat ?next + unat maxSz + 1 \<le> EEFILE_TOTAL_SIZE"
    and e: "endAddr (last (files (snd (registerAuto s t maxSz)))) = ?next + maxSz"
    unfolding registerAuto_checks [OF assms(1)] by (simp_all split: if_splits)
  from fits have "unat ?next + unat maxSz < 65536"
    by (simp add: EEFILE_TOTAL_SIZE_def EEFILE_SECTOR_SIZE_def EEFILE_NUM_SECTORS_def)
  then have "unat (?next + maxSz) = unat ?next + unat maxSz"
    by (simp add: unat_word_ariths)
  with fits e show ?thesis by simp
qed

subsection \<open>C4: the layout of the regions\<close>

text \<open>
  Claim C4 says that after every sequence of successful registrations the regions are
  disjoint and follow one another without a gap. After a successful registration of
  size 65535 the next address wraps to 0: a second record of size 4 is admitted at
  bytes 0 to 4, inside the first record's bytes 0 to 65535, and its start is not the
  first record's end plus one.
\<close>

theorem registerAuto_regions_overlap:
  "fst (registerAuto (run blank [Begin]) IIC_START 0xFFFF) = OK
   \<and> fst (registerAuto (run blank [Begin, RegisterAuto IIC_START 0xFFFF]) KAL_MAN 4) = OK
   \<and> map (\<lambda>f. (type f, unat (startAddr f), unat (endAddr f)))
         (files (run blank [Begin, RegisterAuto IIC_START 0xFFFF, RegisterAuto KAL_MAN 4]))
       = [(IIC_START, 0, 65535), (KAL_MAN, 0, 4)]"
  by (simp add: store_defs unat_max_u16)

text \<open>
  When no registration asks for 65535 bytes the layout is the claimed one: the first
  record starts at 0, each next one at the end of the one before it plus one, every
  record ends \<^verbatim>\<open>maxSize\<close> bytes after its start and inside the region, and the
  regions of two records are disjoint. The example of the claim is such a sequence.
\<close>

lemma modest_layout:
  fixes dev :: EEPROMClass and cs :: "call list"
  defines "fs \<equiv> files (run dev cs)"
  assumes "list_all modest cs"
  shows "fs \<noteq> [] \<Longrightarrow> unat (startAddr (fs ! 0)) = 0"
    and "Suc n < length fs \<Longrightarrow> unat (startAddr (fs ! Suc n)) = unat (endAddr (fs ! n)) + 1"
    and "n < length fs \<Longrightarrow> unat (endAddr (fs ! n)) = unat (startAddr (fs ! n)) + unat (maxSize (fs ! n))"
    and "n < length fs \<Longrightarrow> unat (endAddr (fs ! n)) < EEFILE_TOTAL_SIZE"
    and "i < j \<Longrightarrow> j < length fs \<Longrightarrow> unat (endAddr (fs ! i)) < unat (startAddr (fs ! j))"
proof -
  have l: "layout 0 fs"
    unfolding fs_def by (rule layout_run [OF assms(2)])
  show "fs \<noteq> [] \<Longrightarrow> unat (startAddr (fs ! 0)) = 0"
    using l by (cases fs) auto
  show "Suc n < length fs \<Longrightarrow> unat (startAddr (fs ! Suc n)) = unat (endAddr (fs ! n)) + 1"
    using l by (rule layout_next)
  show "n < length fs \<Longrightarrow> unat (endAddr (fs ! n)) = unat (startAddr (fs ! n)) + unat (maxSize (fs ! n))"
    using layout_region [OF l, of n] by blast
  show "n < length fs \<Longrightarrow> unat (endAddr (fs ! n)) < EEFILE_TOTAL_SIZE"
    using layout_region [OF l, of n] by blast
  show "i < j \<Longrightarrow> j < length fs \<Longrightarrow> unat (endAddr (fs ! i)) < unat (startAddr (fs ! j))"
    using l by (rule layout_disjoint)
qed

lemma example_layout:
  "list_all modest setup_calls
   \<and> map (\<lambda>f. (type f, unat (startAddr f), unat (endAddr f))) (files (run blank setup_calls))
       = [(IIC_START, 0, 1), (KAL_MAN, 2, 6), (USER_SETTINGS, 7, 23)]"
  by (simp add: setup_store) (simp add: setup_calls_def)

subsection \<open>C5: the checks of a registration\<close>

text \<open>
  Claim C5 says that a registration fails and leaves the table unchanged when the
  table is full, when the identifier is present, or when
  \<^verbatim>\<open>startAddr + maxSize + 1\<close> exceeds the size of the region, in this order. With
  an empty table and \<^verbatim>\<open>maxSize = 65535\<close> the sum is 65536, above 512, and the
  registration succeeds and appends a descriptor.
\<close>

theorem registerAuto_space_check_passes:
  "fileCount (run blank [Begin]) < EEFILE_MAX_FILES
   \<and> findFileIndex (run blank [Begin]) IIC_START = None
   \<and> unat (calculateNextAddr (run blank [Begin])) + unat (0xFFFF :: u16) + 1 > EEFILE_TOTAL_SIZE
   \<and> fst (registerAuto (run blank [Begin]) IIC_START 0xFFFF) = OK
   \<and> fileCount (run blank [Begin]) = 0
   \<and> fileCount (snd (registerAuto (run blank [Begin]) IIC_START 0xFFFF)) = 1"
  by (simp add: store_defs)

text \<open>
  For every other size the checks and their order are as claimed
  (\<open>registerAuto_checks\<close>), and a failed registration of any size leaves the
  state unchanged (\<open>registerAuto_failed_unchanged\<close>).
\<close>

subsection \<open>C6: read copies the shorter length\<close>

text \<open>
  Claim C6. In every reachable state with the store enabled, a \<^verbatim>\<open>read\<close> of a
  registered, enabled record whose marker byte is \<^verbatim>\<open>0x01\<close> succeeds whatever the
  expected length; it copies the bytes the device returns at \<^verbatim>\<open>startAddr + 1 + i\<close>
  into the buffer for \<open>i\<close> below the smaller of the expected length and
  \<^verbatim>\<open>dataLen\<close> and leaves the rest of the buffer alone; and its outcome depends on
  no device byte outside \<^verbatim>\<open>startAddr\<close> to \<^verbatim>\<open>startAddr + dataLen\<close>. The claim as
  given leaves the store-wide switch out.
\<close>

theorem read_copies_min_length:
  assumes s: "s = run dev cs"
    and en: "is_enabled s"
    and idx: "findFileIndex s t = Some idx"
    and fen: "enabled (files s ! idx)"
    and marker: "EEPROM_read (EEPROM s) (unat (startAddr (files s ! idx))) = 0x01"
  shows "fst (read s t buf len) = OK
     \<and> (\<forall>i. snd (read s t buf len) i =
            (if i < min (unat len) (unat (dataLen (files s ! idx)))
             then EEPROM_read (EEPROM s) (unat (startAddr (files s ! idx)) + 1 + i)
             else buf i))
     \<and> (\<forall>dev'. (\<forall>a. unat (startAddr (files s ! idx)) \<le> a
                    \<and> a \<le> unat (startAddr (files s ! idx)) + unat (dataLen (files s ! idx))
                    \<longrightarrow> EEPROM_read dev' a = EEPROM_read (EEPROM s) a)
            \<longrightarrow> read (s\<lparr>EEPROM := dev'\<rparr>) t buf len = read s t buf len)"
proof -
  define f where "f = files s ! idx"
  define readLen where "readLen = (if len < dataLen f then len else dataLen f)"
  have da: "unat (startAddr f + 1) = unat (startAddr f) + 1"
    using run_region(1) [of dev cs t idx] idx by (simp add: s f_def)
  have rl: "unat readLen = min (unat len) (unat (dataLen f))"
    by (simp add: readLen_def word_less_nat_alt min_def)
  have r: "read s t buf len = (OK, read_loop (EEPROM s) (startAddr f + 1) readLen 0 buf)"
    using en idx fen marker by (simp add: read_def Let_def f_def readLen_def)
  have copy: "snd (read s t buf len) i =
       (if i < min (unat len) (unat (dataLen f))
        then EEPROM_read (EEPROM s) (unat (startAddr f) + 1 + i) else buf i)" for i
    by (simp add: r read_loop_at da rl)
  have frame: "read (s\<lparr>EEPROM := dev'\<rparr>) t buf len = read s t buf len"
    if agree: "\<forall>a. unat (startAddr f) \<le> a \<and> a \<le> unat (startAddr f) + unat (dataLen f)
                 \<longrightarrow> EEPROM_read dev' a = EEPROM_read (EEPROM s) a" for dev'
  proof -
    have m: "EEPROM_read dev' (unat (startAddr f)) = 0x01"
      using agree marker by (simp add: f_def)
    have r': "read (s\<lparr>EEPROM := dev'\<rparr>) t buf len =
               (OK, read_loop dev' (startAddr f + 1) readLen 0 buf)"
      using en idx fen m
      by (simp add: read_def Let_def f_def readLen_def findFileIndex_def)
    have "read_loop dev' (startAddr f + 1) readLen 0 buf i =
          read_loop (EEPROM s) (startAddr f + 1) readLen 0 buf i" for i
      using agree by (simp add: read_loop_at da rl)
    then have "read_loop dev' (startAddr f + 1) readLen 0 buf =
               read_loop (EEPROM s) (startAddr f + 1) readLen 0 buf"
      by (rule ext)
    with r r' show ?thesis by simp
  qed
  from r copy frame show ?thesis
    unfolding f_def by simp
qed

theorem read_copies_min_length_witness:
  "is_enabled (run blank written_calls)
   \<and> findFileIndex (run blank written_calls) IIC_START = Some 0
   \<and> enabled (files (run blank written_calls) ! 0)
   \<and> EEPROM_read (EEPROM (run blank written_calls))
        (unat (startAddr (files (run blank written_calls) ! 0))) = 0x01
   \<and> dataLen (files (run blank written_calls) ! 0) = 1
   \<and> fst (read (run blank written_calls) IIC_START i2c_addr 4) = OK
   \<and> snd (read (run blank written_calls) IIC_START (\<lambda>i. 0x00) 4) 0 = 0x42
   \<and> snd (read (run blank written_calls) IIC_START (\<lambda>i. 0x00) 4) 1 = 0x00"
proof -
  have h1: "is_enabled (run blank written_calls)"
    and h2: "findFileIndex (run blank written_calls) IIC_START = Some 0"
    and h3: "enabled (files (run blank written_calls) ! 0)"
    and h4: "EEPROM_read (EEPROM (run blank written_calls))
               (unat (startAddr (files (run blank written_calls) ! 0))) = 0x01"
    by (simp_all add: written_store findFileIndex_def EEPROM_read_def total_size)
  note r = read_copies_min_length [OF refl h1 h2 h3 h4]
  have ok: "fst (read (run blank written_calls) IIC_START i2c_addr 4) = OK"
    using r [of i2c_addr 4] by (rule conjunct1)
  have copy: "\<forall>i. snd (read (run blank written_calls) IIC_START (\<lambda>i. 0x00) 4) i =
            (if i < min (unat (4::u16)) (unat (dataLen (files (run blank written_calls) ! 0)))
             then EEPROM_read (EEPROM (run blank written_calls))
                    (unat (startAddr (files (run blank written_calls) ! 0)) + 1 + i)
             else 0x00)"
    using r [of "\<lambda>i. 0x00" 4] by (rule conjunct2 [THEN conjunct1])
  have c0: "snd (read (run blank written_calls) IIC_START (\<lambda>i. 0x00) 4) 0 = 0x42"
    and c1: "snd (read (run blank written_calls) IIC_START (\<lambda>i. 0x00) 4) 1 = 0x00"
    unfolding copy [rule_format] by (simp_all add: written_store EEPROM_read_def total_size)
  have len: "dataLen (files (run blank written_calls) ! 0) = 1"
    by (simp add: written_store)
  from h1 h2 h3 h4 len ok c0 c1 show ?thesis
    by blast
qed

text \<open>With the store disabled the same read fails at the first check.\<close>

theorem read_store_disabled_counterexample:
  "findFileIndex (run blank stopped_calls) IIC_START = Some 0
   \<and> enabled (files (run blank stopped_calls) ! 0)
   \<and> EEPROM_read (EEPROM (run blank stopped_calls))
        (unat (startAddr (files (run blank stopped_calls) ! 0))) = 0x01
   \<and> fst (read (run blank stopped_calls) IIC_START i2c_addr 1) = ERROR EEPROMDisabled
   \<and> fst (read (run blank stopped_calls) IIC_START i2c_addr 1) \<noteq> OK"
  by (simp add: stopped_store written_store findFileIndex_def read_def EEPROM_read_def total_size)

subsection \<open>C7: the bytes of a write, and their order\<close>

text \<open>
  Claim C7 says that after every successful \<^verbatim>\<open>write\<close> the device holds \<^verbatim>\<open>0x01\<close>
  at \<^verbatim>\<open>startAddr\<close>, the payload from \<^verbatim>\<open>startAddr + 1\<close> on and \<^verbatim>\<open>0xFF\<close> up to
  \<^verbatim>\<open>endAddr\<close>, with the marker written first. A record of size 65535 is admitted
  behind a record that fills the region, at \<^verbatim>\<open>startAddr = 512\<close>, the first address
  the device of 512 bytes does not have. A write of one byte to it returns true; it
  changes no cell of the device, and afterwards the device returns neither \<^verbatim>\<open>0x01\<close>
  at address 512 nor the payload byte \<^verbatim>\<open>0x42\<close> at address 513.
\<close>

theorem write_marker_beyond_device:
  "findFileIndex (run blank beyond_calls) KAL_MAN = Some 1
   \<and> unat (startAddr (files (run blank beyond_calls) ! 1)) = 512
   \<and> EEFILE_TOTAL_SIZE = 512
   \<and> fst (write (run blank beyond_calls) KAL_MAN i2c_addr 1) = OK
   \<and> i2c_addr 0 = 0x42
   \<and> EEPROM_read (EEPROM (snd (write (run blank beyond_calls) KAL_MAN i2c_addr 1))) 512 = 0xFF
   \<and> EEPROM_read (EEPROM (snd (write (run blank beyond_calls) KAL_MAN i2c_addr 1))) 513 = 0xFF
   \<and> cells (EEPROM (snd (write (run blank beyond_calls) KAL_MAN i2c_addr 1)))
       = cells (EEPROM (run blank beyond_calls))"
proof -
  have h1: "is_enabled (run blank beyond_calls)"
    and h2: "findFileIndex (run blank beyond_calls) KAL_MAN = Some 1"
    and h3: "enabled (files (run blank beyond_calls) ! 1)"
    and h4: "1 \<le> maxSize (files (run blank beyond_calls) ! 1)"
    and h5: "unat (startAddr (files (run blank beyond_calls) ! 1)) = 512"
    by (simp_all add: beyond_store findFileIndex_def)
  have w: "fst (write (run blank beyond_calls) KAL_MAN i2c_addr 1) = OK"
    using h1 h2 h3 h4 by (simp add: write_OK)
  have r: "EEPROM_read (EEPROM (snd (write (run blank beyond_calls) KAL_MAN i2c_addr 1))) 512 = 0xFF"
    "EEPROM_read (EEPROM (snd (write (run blank beyond_calls) KAL_MAN i2c_addr 1))) 513 = 0xFF"
    unfolding write_read_back [OF h1 h2 h3 h4]
    by (simp_all add: beyond_store total_size blank_sel)
  have "cells (EEPROM (snd (write (run blank beyond_calls) KAL_MAN i2c_addr 1))) a
          = cells (EEPROM (run blank beyond_calls)) a" for a
    unfolding write_cells [OF h1 h2 h3 h4]
    by (simp add: beyond_store total_size)
  then have c: "cells (EEPROM (snd (write (run blank beyond_calls) KAL_MAN i2c_addr 1)))
          = cells (EEPROM (run blank beyond_calls))"
    by (rule ext)
  from h2 h5 w r c show ?thesis
    by (simp add: total_size i2c_addr_def)
qed

text \<open>
  What does hold: when no registration asks for 65535 bytes, every successful write
  leaves the claimed bytes in the device, sets \<^verbatim>\<open>dataLen\<close> and \<^verbatim>\<open>modified\<close>, and
  writes the marker first, then the payload, then the padding. The write of two of
  the four bytes of a record shows all three.
\<close>

lemma modest_write_layout:
  assumes m: "list_all modest cs"
    and s: "s = run dev cs"
    and idx: "findFileIndex s t = Some idx"
    and ok: "fst (write s t data len) = OK"
  shows "EEPROM_read (EEPROM (snd (write s t data len))) (unat (startAddr (files s ! idx))) = 0x01
     \<and> (\<forall>i < unat len. EEPROM_read (EEPROM (snd (write s t data len)))
                          (unat (startAddr (files s ! idx)) + 1 + i) = data i)
     \<and> (\<forall>a. unat (startAddr (files s ! idx)) + 1 + unat len \<le> a
              \<and> a \<le> unat (endAddr (files s ! idx))
            \<longrightarrow> EEPROM_read (EEPROM (snd (write s t data len))) a = 0xFF)
     \<and> dataLen (files (snd (write s t data len)) ! idx) = len
     \<and> modified (files (snd (write s t data len)) ! idx)
     \<and> getFileDataLen (snd (write s t data len)) t = len
     \<and> isFileModified (snd (write s t data len)) t
     \<and> journal (EEPROM (snd (write s t data len))) =
         journal (EEPROM s) @ (unat (startAddr (files s ! idx)), 0x01)
           # map (\<lambda>k. (unat (startAddr (files s ! idx)) + 1 + k, data k)) [0..<unat len]
           @ map (\<lambda>k. (unat (startAddr (files s ! idx)) + 1 + k, 0xFF))
               [unat len..<unat (maxSize (files s ! idx))]"
proof -
  define f where "f = files s ! idx"
  define s' where "s' = snd (write s t data len)"
  from ok idx have cond: "is_enabled s" "findFileIndex s t = Some idx"
    "enabled (files s ! idx)" "len \<le> maxSize (files s ! idx)"
    by (auto simp: write_OK_iff)
  have lt: "idx < length (files s)"
    using findFileIndex_Some [OF idx] by simp
  from layout_region [OF layout_run [OF m, of dev] lt [unfolded s]]
  have e: "unat (endAddr f) = unat (startAddr f) + unat (maxSize f)"
    and inside: "unat (endAddr f) < EEFILE_TOTAL_SIZE"
    by (simp_all add: f_def s)
  then have da: "unat (startAddr f + 1) = unat (startAddr f) + 1"
    by (simp add: unat_u16_succ total_size)
  have len: "unat len \<le> unat (maxSize f)"
    using cond(4) by (simp add: f_def word_le_nat_alt)
  have rb: "EEPROM_read (EEPROM s') a =
     (if \<not> a < EEFILE_TOTAL_SIZE then absent (EEPROM s)
      else if a = unat (startAddr f) then 0x01
      else if unat (startAddr f) + 1 \<le> a \<and> a < unat (startAddr f) + 1 + unat len
        then data (a - (unat (startAddr f) + 1))
      else if unat (startAddr f) + 1 + unat len \<le> a
            \<and> a < unat (startAddr f) + 1 + unat (maxSize f) then 0xFF
      else EEPROM_read (EEPROM s) a)" for a
    using write_read_back [OF cond, of data a] by (simp add: s'_def f_def [symmetric] da)
  have c1: "EEPROM_read (EEPROM s') (unat (startAddr f)) = 0x01"
    using e inside by (simp add: rb)
  have c2: "\<forall>i < unat len. EEPROM_read (EEPROM s') (unat (startAddr f) + 1 + i) = data i"
    using e inside len by (simp add: rb)
  have c3: "\<forall>a. unat (startAddr f) + 1 + unat len \<le> a \<and> a \<le> unat (endAddr f)
              \<longrightarrow> EEPROM_read (EEPROM s') a = 0xFF"
    using e inside by (simp add: rb)
  have f': "files s' ! idx = f\<lparr>dataLen := len, modified := True\<rparr>"
    using lt by (simp add: s'_def write_files(1) [OF cond] f_def)
  have find': "findFileIndex s' t = Some idx"
    by (simp add: s'_def findFileIndex_write idx)
  have c4: "dataLen (files s' ! idx) = len" and c5: "modified (files s' ! idx)"
    by (simp_all add: f')
  have c6: "getFileDataLen s' t = len" and c7: "isFileModified s' t"
    by (simp_all add: getFileDataLen_def isFileModified_def find' f')
  have c8: "journal (EEPROM s') =
         journal (EEPROM s) @ (unat (startAddr f), 0x01)
           # map (\<lambda>k. (unat (startAddr f) + 1 + k, data k)) [0..<unat len]
           @ map (\<lambda>k. (unat (startAddr f) + 1 + k, 0xFF)) [unat len..<unat (maxSize f)]"
    using write_journal [OF cond, of data] by (simp add: s'_def f_def [symmetric] da)
  from c1 c2 c3 c4 c5 c6 c7 c8 show ?thesis
    unfolding s'_def f_def by blast
qed

lemma padded_write_example:
  "list_all modest setup_calls
   \<and> fst (write (run blank setup_calls) KAL_MAN i2c_addr 2) = OK
   \<and> map (EEPROM_read (EEPROM (snd (write (run blank setup_calls) KAL_MAN i2c_addr 2))))
         [2, 3, 4, 5, 6] = [0x01, 0x42, 0x42, 0xFF, 0xFF]
   \<and> journal (EEPROM (snd (write (run blank setup_calls) KAL_MAN i2c_addr 2)))
       = [(2, 0x01), (3, 0x42), (4, 0x42), (5, 0xFF), (6, 0xFF)]"
proof -
  have m: "list_all modest setup_calls"
    by (simp add: setup_calls_def)
  have h1: "findFileIndex (run blank setup_calls) KAL_MAN = Some 1"
    by (simp add: setup_store findFileIndex_def)
  have h2: "fst (write (run blank setup_calls) KAL_MAN i2c_addr 2) = OK"
    by (simp add: write_OK_iff h1) (simp add: setup_store)
  note w = modest_write_layout [OF m refl h1 h2]
  have j: "journal (EEPROM (snd (write (run blank setup_calls) KAL_MAN i2c_addr 2)))
       = [(2, 0x01), (3, 0x42), (4, 0x42), (5, 0xFF), (6, 0xFF)]"
    using w by (simp add: setup_store blank_sel i2c_addr_def upt_rec)
  have r: "EEPROM_read (EEPROM (snd (write (run blank setup_calls) KAL_MAN i2c_addr 2))) 2 = 0x01"
    "EEPROM_read (EEPROM (snd (write (run blank setup_calls) KAL_MAN i2c_addr 2))) 3 = 0x42"
    "EEPROM_read (EEPROM (snd (write (run blank setup_calls) KAL_MAN i2c_addr 2))) 4 = 0x42"
    "EEPROM_read (EEPROM (snd (write (run blank setup_calls) KAL_MAN i2c_addr 2))) 5 = 0xFF"
    "EEPROM_read (EEPROM (snd (write (run blank setup_calls) KAL_MAN i2c_addr 2))) 6 = 0xFF"
    using h1 h2 unfolding write_OK_iff
    by (simp_all add: write_read_back setup_store total_size i2c_addr_def)
  from m h2 j r show ?thesis by simp
qed

subsection \<open>C8: erase\<close>

text \<open>
  Claim C8 says that after a successful \<^verbatim>\<open>erase\<close> of a registered record the record
  is invalid, its data length is 0 and a following \<^verbatim>\<open>read\<close> fails at the marker
  check. \<^verbatim>\<open>erase\<close> does not test the record's \<^verbatim>\<open>enabled\<close> flag, as C2 shows: on
  the disabled record of the example it succeeds, and the following \<^verbatim>\<open>read\<close> fails
  at the test of the flag, before the marker is looked at.
\<close>

theorem erase_then_read_disabled:
  "\<not> isFileEnabled (run blank disabled_calls) IIC_START
   \<and> fst (erase (run blank disabled_calls) IIC_START) = OK
   \<and> fst (read (snd (erase (run blank disabled_calls) IIC_START)) IIC_START i2c_addr 1)
       = ERROR TypeDisabled
   \<and> fst (read (snd (erase (run blank disabled_calls) IIC_START)) IIC_START i2c_addr 1)
       \<noteq> ERROR DataInvalid"
  by (simp add: disabled_store isFileEnabled_def erase_def read_def findFileIndex_def
      EEPROM_write_def Let_def)

text \<open>
  What does hold, for a record whose marker is inside the device: after a successful
  \<^verbatim>\<open>erase\<close> the record is invalid, its data length is 0, a following \<^verbatim>\<open>read\<close>
  fails and leaves the buffer alone, and it fails at the marker check when the record
  is enabled; the one device write of the call puts \<^verbatim>\<open>0x00\<close> at \<^verbatim>\<open>startAddr\<close>,
  every other cell is unchanged; \<^verbatim>\<open>dataLen\<close> is 0 and \<^verbatim>\<open>modified\<close> is false.
\<close>

lemma erase_effects:
  assumes ok: "fst (erase s t) = OK"
    and idx: "findFileIndex s t = Some idx"
    and start: "unat (startAddr (files s ! idx)) < EEFILE_TOTAL_SIZE"
  shows "\<not> isFileValid (snd (erase s t)) t
     \<and> getFileDataLen (snd (erase s t)) t = 0
     \<and> fst (read (snd (erase s t)) t buf len) \<noteq> OK
     \<and> snd (read (snd (erase s t)) t buf len) = buf
     \<and> (enabled (files s ! idx)
          \<longrightarrow> read (snd (erase s t)) t buf len = (ERROR DataInvalid, buf))
     \<and> journal (EEPROM (snd (erase s t))) =
         journal (EEPROM s) @ [(unat (startAddr (files s ! idx)), 0x00)]
     \<and> cells (EEPROM (snd (erase s t))) (unat (startAddr (files s ! idx))) = 0x00
     \<and> (\<forall>a. a \<noteq> unat (startAddr (files s ! idx))
            \<longrightarrow> cells (EEPROM (snd (erase s t))) a = cells (EEPROM s) a)
     \<and> dataLen (files (snd (erase s t)) ! idx) = 0
     \<and> \<not> modified (files (snd (erase s t)) ! idx)"
proof -
  define f where "f = files s ! idx"
  define s' where "s' = snd (erase s t)"
  have en: "is_enabled s"
    using ok by (auto simp: erase_def split: if_splits)
  have lt: "idx < length (files s)"
    using findFileIndex_Some [OF idx] by simp
  have e: "s' =
     s\<lparr>EEPROM := EEPROM_write (EEPROM s) (unat (startAddr f)) 0x00,
       files := (files s)[idx := f\<lparr>dataLen := 0, modified := False\<rparr>]\<rparr>"
    using en idx by (simp add: s'_def erase_def Let_def f_def)
  have find': "findFileIndex s' t = Some idx"
    using findFileIndex_update [OF idx, of "f\<lparr>dataLen := 0, modified := False\<rparr>" t] idx
    by (simp add: e f_def findFileIndex_def)
  have f': "files s' ! idx = f\<lparr>dataLen := 0, modified := False\<rparr>"
    using lt by (simp add: e)
  have en': "is_enabled s'"
    using en by (simp add: e)
  have marker: "EEPROM_read (EEPROM s') (unat (startAddr f)) = 0x00"
    using start by (simp add: e EEPROM_read_write f_def)
  have c1: "\<not> isFileValid s' t"
    by (simp add: isFileValid_def find' f' marker)
  have c2: "getFileDataLen s' t = 0"
    by (simp add: getFileDataLen_def find' f')
  have r: "read s' t buf len =
             (if enabled f then (ERROR DataInvalid, buf) else (ERROR TypeDisabled, buf))"
    by (simp add: read_def en' find' f' marker Let_def)
  have c3: "fst (read s' t buf len) \<noteq> OK" and c4: "snd (read s' t buf len) = buf"
    and c5: "enabled f \<longrightarrow> read s' t buf len = (ERROR DataInvalid, buf)"
    by (simp_all add: r)
  have c6: "journal (EEPROM s') = journal (EEPROM s) @ [(unat (startAddr f), 0x00)]"
    by (simp add: e EEPROM_write_sel)
  have c7: "cells (EEPROM s') (unat (startAddr f)) = 0x00"
    using start by (simp add: e EEPROM_write_sel f_def)
  have c8: "\<forall>a. a \<noteq> unat (startAddr f) \<longrightarrow> cells (EEPROM s') a = cells (EEPROM s) a"
    by (simp add: e EEPROM_write_sel)
  have c9: "dataLen (files s' ! idx) = 0" and c10: "\<not> modified (files s' ! idx)"
    by (simp_all add: f')
  from c1 c2 c3 c4 c5 c6 c7 c8 c9 c10 show ?thesis
    unfolding s'_def f_def by blast
qed

subsection \<open>C9: setting and reading the validity\<close>


text \<open>
  What does hold: for a record whose marker is inside the device, so for every record
  when no registration asks for 65535 bytes, \<^verbatim>\<open>setFileValid\<close> then
  \<^verbatim>\<open>isFileValid\<close> gives the value set; in every state \<^verbatim>\<open>setFileValid\<close> leaves
  the table, and so the data length, and every cell other than the marker unchanged;
  and \<^verbatim>\<open>isFileValid\<close> of an unregistered identifier is false.
\<close>

lemma setValid_in_region:
  assumes "findFileIndex s t = Some idx"
    and "unat (startAddr (files s ! idx)) < EEFILE_TOTAL_SIZE"
  shows "isFileValid (setFileValid s t True) t"
    and "\<not> isFileValid (setFileValid s t False) t"
  using assms
  by (simp_all add: isFileValid_def setFileValid_def findFileIndex_def
      EEPROM_read_write Let_def)

lemma setValid_frame:
  assumes "findFileIndex s t = Some idx"
  shows "getFileDataLen (setFileValid s t v) t = getFileDataLen s t"
    and "files (setFileValid s t v) = files s"
    and "a \<noteq> unat (startAddr (files s ! idx))
         \<Longrightarrow> cells (EEPROM (setFileValid s t v)) a = cells (EEPROM s) a"
  using assms
  by (simp_all add: setFileValid_def getFileDataLen_def findFileIndex_def
      EEPROM_write_sel Let_def)

lemma isFileValid_unknown:
  "findFileIndex s t = None \<Longrightarrow> \<not> isFileValid s t"
  by (simp add: isFileValid_def)

lemma modest_setValid:
  assumes "list_all modest cs" and "findFileIndex (run dev cs) t = Some idx"
  shows "isFileValid (setFileValid (run dev cs) t True) t"
    and "\<not> isFileValid (setFileValid (run dev cs) t False) t"
proof -
  have lt: "idx < length (files (run dev cs))"
    using findFileIndex_Some [OF assms(2)] by simp
  from layout_region [OF layout_run [OF assms(1)] lt]
  have "unat (startAddr (files (run dev cs) ! idx)) < EEFILE_TOTAL_SIZE"
    by simp
  from setValid_in_region [OF assms(2) this]
  show "isFileValid (setFileValid (run dev cs) t True) t"
    and "\<not> isFileValid (setFileValid (run dev cs) t False) t"
    by simp_all
qed

subsection \<open>C10: what a write leaves alone\<close>

text \<open>
  Claim C10 says that a successful \<^verbatim>\<open>write\<close> changes device bytes only between
  \<^verbatim>\<open>startAddr\<close> and \<^verbatim>\<open>endAddr\<close> of its record. A record of size 65535 registered
  behind a one-byte record has \<^verbatim>\<open>startAddr = 2\<close> and the wrapped
  \<^verbatim>\<open>endAddr = 1\<close>; a write of length 0 to it puts \<^verbatim>\<open>0x01\<close> at address 2 and
  calls the device with \<^verbatim>\<open>0xFF\<close> for the addresses 3 to 65537: the cells 3 to 511
  change, and the calls from address 512 on are outside the device.
\<close>

theorem write_outside_region:
  "fst (registerAuto (run zeroed [Begin, RegisterAuto IIC_START 1]) KAL_MAN 0xFFFF) = OK
   \<and> unat (startAddr (files (run zeroed wrapped_calls) ! 1)) = 2
   \<and> unat (endAddr (files (run zeroed wrapped_calls) ! 1)) = 1
   \<and> fst (write (run zeroed wrapped_calls) KAL_MAN i2c_addr 0) = OK
   \<and> cells (EEPROM (run zeroed wrapped_calls)) 2 = 0x00
   \<and> cells (EEPROM (snd (write (run zeroed wrapped_calls) KAL_MAN i2c_addr 0))) 2 = 0x01
   \<and> cells (EEPROM (run zeroed wrapped_calls)) 3 = 0x00
   \<and> cells (EEPROM (snd (write (run zeroed wrapped_calls) KAL_MAN i2c_addr 0))) 3 = 0xFF
   \<and> cells (EEPROM (run zeroed wrapped_calls)) 511 = 0x00
   \<and> cells (EEPROM (snd (write (run zeroed wrapped_calls) KAL_MAN i2c_addr 0))) 511 = 0xFF
   \<and> length (journal (EEPROM (snd (write (run zeroed wrapped_calls) KAL_MAN i2c_addr 0))))
       = 65536
   \<and> last (journal (EEPROM (snd (write (run zeroed wrapped_calls) KAL_MAN i2c_addr 0))))
       = (65537, 0xFF)"
proof -
  have reg: "fst (registerAuto (run zeroed [Begin, RegisterAuto IIC_START 1]) KAL_MAN 0xFFFF) = OK"
    by (simp add: store_defs)
  have h1: "is_enabled (run zeroed wrapped_calls)"
    and h2: "findFileIndex (run zeroed wrapped_calls) KAL_MAN = Some 1"
    and h3: "enabled (files (run zeroed wrapped_calls) ! 1)"
    and h4: "0 \<le> maxSize (files (run zeroed wrapped_calls) ! 1)"
    by (simp_all add: wrapped_store findFileIndex_def)
  have w: "fst (write (run zeroed wrapped_calls) KAL_MAN i2c_addr 0) = OK"
    using h1 h2 h3 h4 by (simp add: write_OK)
  have c: "cells (EEPROM (snd (write (run zeroed wrapped_calls) KAL_MAN i2c_addr 0))) 2 = 0x01"
    "cells (EEPROM (snd (write (run zeroed wrapped_calls) KAL_MAN i2c_addr 0))) 3 = 0xFF"
    "cells (EEPROM (snd (write (run zeroed wrapped_calls) KAL_MAN i2c_addr 0))) 511 = 0xFF"
    unfolding write_cells [OF h1 h2 h3 h4] by (simp_all add: wrapped_store total_size)
  have j: "journal (EEPROM (snd (write (run zeroed wrapped_calls) KAL_MAN i2c_addr 0)))
       = (2, 0x01) # map (\<lambda>k. (3 + k, 0xFF)) [0..<65535]"
    unfolding write_journal [OF h1 h2 h3 h4]
    by (simp add: wrapped_store zeroed_sel unat_max_u16)
  have jl: "length (journal (EEPROM (snd (write (run zeroed wrapped_calls) KAL_MAN i2c_addr 0))))
       = 65536"
    unfolding j by simp
  have "last (map (\<lambda>k. (3 + k, 0xFF :: u8)) [0..<65535]) = (65537, 0xFF)"
    by (simp add: last_map)
  then have jlast: "last (journal (EEPROM (snd (write (run zeroed wrapped_calls) KAL_MAN i2c_addr 0))))
       = (65537, 0xFF)"
    unfolding j by simp
  from reg w c jl jlast show ?thesis
    by (simp add: wrapped_store) (simp add: zeroed_sel)
qed

text \<open>
  When no registration asks for 65535 bytes a successful write changes device bytes
  only from \<^verbatim>\<open>startAddr\<close> to \<^verbatim>\<open>endAddr\<close> of its record, and in the table only
  \<^verbatim>\<open>dataLen\<close> and \<^verbatim>\<open>modified\<close> of that record.
\<close>

lemma modest_write_frame:
  assumes "list_all modest cs"
    and "findFileIndex (run dev cs) t = Some idx"
    and "fst (write (run dev cs) t data len) = OK"
  shows "a < unat (startAddr (files (run dev cs) ! idx))
           \<or> unat (endAddr (files (run dev cs) ! idx)) < a
         \<Longrightarrow> cells (EEPROM (snd (write (run dev cs) t data len))) a
               = cells (EEPROM (run dev cs)) a"
    and "files (snd (write (run dev cs) t data len))
           = (files (run dev cs))
               [idx := (files (run dev cs) ! idx)\<lparr>dataLen := len, modified := True\<rparr>]"
  using write_frame(1,2) [OF layout_run [OF assms(1)] assms(2,3)] by blast+

end
